theory Spec2Isabelle
  imports Complex_Main
begin

section \<open>Data model\<close>

text \<open>
  The C sources compute with \<open>double\<close>.  Here a \<open>double\<close> is a real number, so every
  identity below is an identity of exact real arithmetic; rounding is not modelled.
  A buffer of doubles (\<open>double *\<close>, \<open>double u[4]\<close>) is a \<open>real list\<close> read with \<open>!\<close>;
  an SU(2) link has \<open>SU2LINK = 4\<close> entries, a doublet \<open>SU2DB = 4\<close>, a triplet
  \<open>SU2TRIP = 3\<close> and a general complex matrix 8.
\<close>

definition SU2DB :: nat where "SU2DB = 4"
definition SU2LINK :: nat where "SU2LINK = 4"
definition SU2TRIP :: nat where "SU2TRIP = 3"

section \<open>Compact-matrix algebra (su2u1.c, magfield.c)\<close>

definition su2sqr :: "real list \<Rightarrow> real" where
  "su2sqr u = u ! 0 * u ! 0 + u ! 1 * u ! 1 + u ! 2 * u ! 2 + u ! 3 * u ! 3"

text \<open>\<open>su2rot(u1, u2)\<close>: the value of the buffer \<open>u1\<close> after the call.\<close>

definition su2rot :: "real list \<Rightarrow> real list \<Rightarrow> real list" where
  "su2rot u1 u2 =
    (let new1 = u1 ! 0 * u2 ! 0 - u1 ! 1 * u2 ! 1 - u1 ! 2 * u2 ! 2 - u1 ! 3 * u2 ! 3;
         new2 = u1 ! 1 * u2 ! 0 + u1 ! 0 * u2 ! 1 + u1 ! 3 * u2 ! 2 - u1 ! 2 * u2 ! 3;
         new3 = u1 ! 2 * u2 ! 0 - u1 ! 3 * u2 ! 1 + u1 ! 0 * u2 ! 2 + u1 ! 1 * u2 ! 3;
         new4 = u1 ! 3 * u2 ! 0 + u1 ! 2 * u2 ! 1 - u1 ! 1 * u2 ! 2 + u1 ! 0 * u2 ! 3
     in [new1, new2, new3, new4])"

definition su2trace4 :: "real list \<Rightarrow> real list \<Rightarrow> real list \<Rightarrow> real list \<Rightarrow> real" where
  "su2trace4 u1 u2 u3 u4 =
    2 * (u1 ! 0 * u2 ! 0 * u3 ! 0 * u4 ! 0 - u1 ! 1 * u2 ! 1 * u3 ! 0 * u4 ! 0 -
      u1 ! 2 * u2 ! 2 * u3 ! 0 * u4 ! 0 - u1 ! 3 * u2 ! 3 * u3 ! 0 * u4 ! 0 +
      u1 ! 1 * u2 ! 0 * u3 ! 1 * u4 ! 0 + u1 ! 0 * u2 ! 1 * u3 ! 1 * u4 ! 0 +
      u1 ! 3 * u2 ! 2 * u3 ! 1 * u4 ! 0 - u1 ! 2 * u2 ! 3 * u3 ! 1 * u4 ! 0 +
      u1 ! 2 * u2 ! 0 * u3 ! 2 * u4 ! 0 - u1 ! 3 * u2 ! 1 * u3 ! 2 * u4 ! 0 +
      u1 ! 0 * u2 ! 2 * u3 ! 2 * u4 ! 0 + u1 ! 1 * u2 ! 3 * u3 ! 2 * u4 ! 0 +
      u1 ! 3 * u2 ! 0 * u3 ! 3 * u4 ! 0 + u1 ! 2 * u2 ! 1 * u3 ! 3 * u4 ! 0 -
      u1 ! 1 * u2 ! 2 * u3 ! 3 * u4 ! 0 + u1 ! 0 * u2 ! 3 * u3 ! 3 * u4 ! 0 +
      u1 ! 1 * u2 ! 0 * u3 ! 0 * u4 ! 1 + u1 ! 0 * u2 ! 1 * u3 ! 0 * u4 ! 1 +
      u1 ! 3 * u2 ! 2 * u3 ! 0 * u4 ! 1 - u1 ! 2 * u2 ! 3 * u3 ! 0 * u4 ! 1 -
      u1 ! 0 * u2 ! 0 * u3 ! 1 * u4 ! 1 + u1 ! 1 * u2 ! 1 * u3 ! 1 * u4 ! 1 +
      u1 ! 2 * u2 ! 2 * u3 ! 1 * u4 ! 1 + u1 ! 3 * u2 ! 3 * u3 ! 1 * u4 ! 1 -
      u1 ! 3 * u2 ! 0 * u3 ! 2 * u4 ! 1 - u1 ! 2 * u2 ! 1 * u3 ! 2 * u4 ! 1 +
      u1 ! 1 * u2 ! 2 * u3 ! 2 * u4 ! 1 - u1 ! 0 * u2 ! 3 * u3 ! 2 * u4 ! 1 +
      u1 ! 2 * u2 ! 0 * u3 ! 3 * u4 ! 1 - u1 ! 3 * u2 ! 1 * u3 ! 3 * u4 ! 1 +
      u1 ! 0 * u2 ! 2 * u3 ! 3 * u4 ! 1 + u1 ! 1 * u2 ! 3 * u3 ! 3 * u4 ! 1 +
      u1 ! 2 * u2 ! 0 * u3 ! 0 * u4 ! 2 - u1 ! 3 * u2 ! 1 * u3 ! 0 * u4 ! 2 +
      u1 ! 0 * u2 ! 2 * u3 ! 0 * u4 ! 2 + u1 ! 1 * u2 ! 3 * u3 ! 0 * u4 ! 2 +
      u1 ! 3 * u2 ! 0 * u3 ! 1 * u4 ! 2 + u1 ! 2 * u2 ! 1 * u3 ! 1 * u4 ! 2 -
      u1 ! 1 * u2 ! 2 * u3 ! 1 * u4 ! 2 + u1 ! 0 * u2 ! 3 * u3 ! 1 * u4 ! 2 -
      u1 ! 0 * u2 ! 0 * u3 ! 2 * u4 ! 2 + u1 ! 1 * u2 ! 1 * u3 ! 2 * u4 ! 2 +
      u1 ! 2 * u2 ! 2 * u3 ! 2 * u4 ! 2 + u1 ! 3 * u2 ! 3 * u3 ! 2 * u4 ! 2 -
      u1 ! 1 * u2 ! 0 * u3 ! 3 * u4 ! 2 - u1 ! 0 * u2 ! 1 * u3 ! 3 * u4 ! 2 -
      u1 ! 3 * u2 ! 2 * u3 ! 3 * u4 ! 2 + u1 ! 2 * u2 ! 3 * u3 ! 3 * u4 ! 2 +
      u1 ! 3 * u2 ! 0 * u3 ! 0 * u4 ! 3 + u1 ! 2 * u2 ! 1 * u3 ! 0 * u4 ! 3 -
      u1 ! 1 * u2 ! 2 * u3 ! 0 * u4 ! 3 + u1 ! 0 * u2 ! 3 * u3 ! 0 * u4 ! 3 -
      u1 ! 2 * u2 ! 0 * u3 ! 1 * u4 ! 3 + u1 ! 3 * u2 ! 1 * u3 ! 1 * u4 ! 3 -
      u1 ! 0 * u2 ! 2 * u3 ! 1 * u4 ! 3 - u1 ! 1 * u2 ! 3 * u3 ! 1 * u4 ! 3 +
      u1 ! 1 * u2 ! 0 * u3 ! 2 * u4 ! 3 + u1 ! 0 * u2 ! 1 * u3 ! 2 * u4 ! 3 +
      u1 ! 3 * u2 ! 2 * u3 ! 2 * u4 ! 3 - u1 ! 2 * u2 ! 3 * u3 ! 2 * u4 ! 3 -
      u1 ! 0 * u2 ! 0 * u3 ! 3 * u4 ! 3 + u1 ! 1 * u2 ! 1 * u3 ! 3 * u4 ! 3 +
      u1 ! 2 * u2 ! 2 * u3 ! 3 * u4 ! 3 + u1 ! 3 * u2 ! 3 * u3 ! 3 * u4 ! 3)"

definition su2staple_counterwise :: "real list \<Rightarrow> real list \<Rightarrow> real list \<Rightarrow> real list" where
  "su2staple_counterwise u1 u2 u3 =
    [u1 ! 0 * u2 ! 0 * u3 ! 0 + u1 ! 1 * u2 ! 1 * u3 ! 0 + u1 ! 2 * u2 ! 2 * u3 ! 0 +
         u1 ! 3 * u2 ! 3 * u3 ! 0 + u1 ! 1 * u2 ! 0 * u3 ! 1 - u1 ! 0 * u2 ! 1 * u3 ! 1 -
         u1 ! 3 * u2 ! 2 * u3 ! 1 + u1 ! 2 * u2 ! 3 * u3 ! 1 + u1 ! 2 * u2 ! 0 * u3 ! 2 +
         u1 ! 3 * u2 ! 1 * u3 ! 2 - u1 ! 0 * u2 ! 2 * u3 ! 2 - u1 ! 1 * u2 ! 3 * u3 ! 2 +
         u1 ! 3 * u2 ! 0 * u3 ! 3 - u1 ! 2 * u2 ! 1 * u3 ! 3 + u1 ! 1 * u2 ! 2 * u3 ! 3 -
         u1 ! 0 * u2 ! 3 * u3 ! 3,
     u1 ! 1 * u2 ! 0 * u3 ! 0 - u1 ! 0 * u2 ! 1 * u3 ! 0 - u1 ! 3 * u2 ! 2 * u3 ! 0 +
         u1 ! 2 * u2 ! 3 * u3 ! 0 - u1 ! 0 * u2 ! 0 * u3 ! 1 - u1 ! 1 * u2 ! 1 * u3 ! 1 -
         u1 ! 2 * u2 ! 2 * u3 ! 1 - u1 ! 3 * u2 ! 3 * u3 ! 1 - u1 ! 3 * u2 ! 0 * u3 ! 2 +
         u1 ! 2 * u2 ! 1 * u3 ! 2 - u1 ! 1 * u2 ! 2 * u3 ! 2 + u1 ! 0 * u2 ! 3 * u3 ! 2 +
         u1 ! 2 * u2 ! 0 * u3 ! 3 + u1 ! 3 * u2 ! 1 * u3 ! 3 - u1 ! 0 * u2 ! 2 * u3 ! 3 -
         u1 ! 1 * u2 ! 3 * u3 ! 3,
     u1 ! 2 * u2 ! 0 * u3 ! 0 + u1 ! 3 * u2 ! 1 * u3 ! 0 - u1 ! 0 * u2 ! 2 * u3 ! 0 -
         u1 ! 1 * u2 ! 3 * u3 ! 0 + u1 ! 3 * u2 ! 0 * u3 ! 1 - u1 ! 2 * u2 ! 1 * u3 ! 1 +
         u1 ! 1 * u2 ! 2 * u3 ! 1 - u1 ! 0 * u2 ! 3 * u3 ! 1 - u1 ! 0 * u2 ! 0 * u3 ! 2 -
         u1 ! 1 * u2 ! 1 * u3 ! 2 - u1 ! 2 * u2 ! 2 * u3 ! 2 - u1 ! 3 * u2 ! 3 * u3 ! 2 -
         u1 ! 1 * u2 ! 0 * u3 ! 3 + u1 ! 0 * u2 ! 1 * u3 ! 3 + u1 ! 3 * u2 ! 2 * u3 ! 3 -
         u1 ! 2 * u2 ! 3 * u3 ! 3,
     u1 ! 3 * u2 ! 0 * u3 ! 0 - u1 ! 2 * u2 ! 1 * u3 ! 0 + u1 ! 1 * u2 ! 2 * u3 ! 0 -
         u1 ! 0 * u2 ! 3 * u3 ! 0 - u1 ! 2 * u2 ! 0 * u3 ! 1 - u1 ! 3 * u2 ! 1 * u3 ! 1 +
         u1 ! 0 * u2 ! 2 * u3 ! 1 + u1 ! 1 * u2 ! 3 * u3 ! 1 + u1 ! 1 * u2 ! 0 * u3 ! 2 -
         u1 ! 0 * u2 ! 1 * u3 ! 2 - u1 ! 3 * u2 ! 2 * u3 ! 2 + u1 ! 2 * u2 ! 3 * u3 ! 2 -
         u1 ! 0 * u2 ! 0 * u3 ! 3 - u1 ! 1 * u2 ! 1 * u3 ! 3 - u1 ! 2 * u2 ! 2 * u3 ! 3 -
         u1 ! 3 * u2 ! 3 * u3 ! 3]"

definition su2staple_clockwise :: "real list \<Rightarrow> real list \<Rightarrow> real list \<Rightarrow> real list" where
  "su2staple_clockwise u1 u2 u3 =
    [u1 ! 0 * u2 ! 0 * u3 ! 0 - u1 ! 1 * u2 ! 1 * u3 ! 0 - u1 ! 2 * u2 ! 2 * u3 ! 0 -
         u1 ! 3 * u2 ! 3 * u3 ! 0 + u1 ! 1 * u2 ! 0 * u3 ! 1 + u1 ! 0 * u2 ! 1 * u3 ! 1 -
         u1 ! 3 * u2 ! 2 * u3 ! 1 + u1 ! 2 * u2 ! 3 * u3 ! 1 + u1 ! 2 * u2 ! 0 * u3 ! 2 +
         u1 ! 3 * u2 ! 1 * u3 ! 2 + u1 ! 0 * u2 ! 2 * u3 ! 2 - u1 ! 1 * u2 ! 3 * u3 ! 2 +
         u1 ! 3 * u2 ! 0 * u3 ! 3 - u1 ! 2 * u2 ! 1 * u3 ! 3 + u1 ! 1 * u2 ! 2 * u3 ! 3 +
         u1 ! 0 * u2 ! 3 * u3 ! 3,
     -u1 ! 1 * u2 ! 0 * u3 ! 0 - u1 ! 0 * u2 ! 1 * u3 ! 0 + u1 ! 3 * u2 ! 2 * u3 ! 0 -
         u1 ! 2 * u2 ! 3 * u3 ! 0 + u1 ! 0 * u2 ! 0 * u3 ! 1 - u1 ! 1 * u2 ! 1 * u3 ! 1 -
         u1 ! 2 * u2 ! 2 * u3 ! 1 - u1 ! 3 * u2 ! 3 * u3 ! 1 - u1 ! 3 * u2 ! 0 * u3 ! 2 +
         u1 ! 2 * u2 ! 1 * u3 ! 2 - u1 ! 1 * u2 ! 2 * u3 ! 2 - u1 ! 0 * u2 ! 3 * u3 ! 2 +
         u1 ! 2 * u2 ! 0 * u3 ! 3 + u1 ! 3 * u2 ! 1 * u3 ! 3 + u1 ! 0 * u2 ! 2 * u3 ! 3 -
         u1 ! 1 * u2 ! 3 * u3 ! 3,
     -(u1 ! 2 * u2 ! 0 * u3 ! 0) - u1 ! 3 * u2 ! 1 * u3 ! 0 - u1 ! 0 * u2 ! 2 * u3 ! 0 +
         u1 ! 1 * u2 ! 3 * u3 ! 0 + u1 ! 3 * u2 ! 0 * u3 ! 1 - u1 ! 2 * u2 ! 1 * u3 ! 1 +
         u1 ! 1 * u2 ! 2 * u3 ! 1 + u1 ! 0 * u2 ! 3 * u3 ! 1 + u1 ! 0 * u2 ! 0 * u3 ! 2 -
         u1 ! 1 * u2 ! 1 * u3 ! 2 - u1 ! 2 * u2 ! 2 * u3 ! 2 - u1 ! 3 * u2 ! 3 * u3 ! 2 -
         u1 ! 1 * u2 ! 0 * u3 ! 3 - u1 ! 0 * u2 ! 1 * u3 ! 3 + u1 ! 3 * u2 ! 2 * u3 ! 3 -
         u1 ! 2 * u2 ! 3 * u3 ! 3,
     -(u1 ! 3 * u2 ! 0 * u3 ! 0) + u1 ! 2 * u2 ! 1 * u3 ! 0 - u1 ! 1 * u2 ! 2 * u3 ! 0 -
         u1 ! 0 * u2 ! 3 * u3 ! 0 - u1 ! 2 * u2 ! 0 * u3 ! 1 - u1 ! 3 * u2 ! 1 * u3 ! 1 -
         u1 ! 0 * u2 ! 2 * u3 ! 1 + u1 ! 1 * u2 ! 3 * u3 ! 1 + u1 ! 1 * u2 ! 0 * u3 ! 2 +
         u1 ! 0 * u2 ! 1 * u3 ! 2 - u1 ! 3 * u2 ! 2 * u3 ! 2 + u1 ! 2 * u2 ! 3 * u3 ! 2 +
         u1 ! 0 * u2 ! 0 * u3 ! 3 - u1 ! 1 * u2 ! 1 * u3 ! 3 - u1 ! 2 * u2 ! 2 * u3 ! 3 -
         u1 ! 3 * u2 ! 3 * u3 ! 3]"

text \<open>
  \<open>matmat(in1, in2, dag)\<close>: the value of the buffer \<open>in1\<close> after the call.  All sixteen
  inputs are copied to locals first; a nonzero \<open>dag\<close> then replaces the copy of \<open>in2\<close>
  by its conjugate transpose.
\<close>

definition matmat :: "real list \<Rightarrow> real list \<Rightarrow> int \<Rightarrow> real list" where
  "matmat in1 in2 dag =
    (let a1 = in1 ! 0; b1 = in1 ! 1; c1 = in1 ! 2; d1 = in1 ! 3;
         e1 = in1 ! 4; f1 = in1 ! 5; g1 = in1 ! 6; h1 = in1 ! 7;
         a2 = in2 ! 0; b2 = in2 ! 1; c2 = in2 ! 2; d2 = in2 ! 3;
         e2 = in2 ! 4; f2 = in2 ! 5; g2 = in2 ! 6; h2 = in2 ! 7;
         (b2, c2, d2, e2, f2, h2) =
           (if dag \<noteq> 0 then (-1 * b2, e2, -1 * f2, c2, -1 * d2, -1 * h2)
            else (b2, c2, d2, e2, f2, h2))
     in
         [a1 * a2 - b1 * b2 + c1 * e2 - d1 * f2,
          a2 * b1 + a1 * b2 + d1 * e2 + c1 * f2,
          a1 * c2 - b1 * d2 + c1 * g2 - d1 * h2,
          b1 * c2 + a1 * d2 + d1 * g2 + c1 * h2,
          a2 * e1 - b2 * f1 + e2 * g1 - f2 * h1,
          b2 * e1 + a2 * f1 + f2 * g1 + e2 * h1,
          c2 * e1 - d2 * f1 + g1 * g2 - h1 * h2,
          d2 * e1 + c2 * f1 + g2 * h1 + g1 * h2])"

subsection \<open>The same two routines as effects on memory\<close>

text \<open>
  Both routines take pointers and overwrite their first operand.  Memory is a map from
  addresses (counted in doubles) to values; a buffer is a start address and a length.
  The routines read both operands completely before the first write.
\<close>

type_synonym mem = "nat \<Rightarrow> real"

definition mem_read :: "mem \<Rightarrow> nat \<Rightarrow> nat \<Rightarrow> real list" where
  "mem_read m p n = map (\<lambda>k. m (p + k)) [0..<n]"

definition mem_write :: "mem \<Rightarrow> nat \<Rightarrow> real list \<Rightarrow> mem" where
  "mem_write m p xs = (\<lambda>a. if p \<le> a \<and> a < p + length xs then xs ! (a - p) else m a)"

definition su2rot_mem :: "mem \<Rightarrow> nat \<Rightarrow> nat \<Rightarrow> mem" where
  "su2rot_mem m u1 u2 = mem_write m u1 (su2rot (mem_read m u1 SU2LINK) (mem_read m u2 SU2LINK))"

definition matmat_mem :: "mem \<Rightarrow> nat \<Rightarrow> nat \<Rightarrow> int \<Rightarrow> mem" where
  "matmat_mem m in1 in2 dag = mem_write m in1 (matmat (mem_read m in1 8) (mem_read m in2 8) dag)"

section \<open>Scalar bilinears and hopping traces (su2u1.c)\<close>

definition doubletsq :: "real list \<Rightarrow> real" where
  "doubletsq a = 0.5 * (a ! 0 * a ! 0 + a ! 1 * a ! 1 + a ! 2 * a ! 2 + a ! 3 * a ! 3)"

definition hopping_trace :: "real list \<Rightarrow> real list \<Rightarrow> real list \<Rightarrow> real" where
  "hopping_trace phi1 u phi2 =
    phi1 ! 0 * phi2 ! 0 * u ! 0 + phi1 ! 1 * phi2 ! 1 * u ! 0 + phi1 ! 2 * phi2 ! 2 * u ! 0
      + phi1 ! 3 * phi2 ! 3 * u ! 0 + phi1 ! 1 * phi2 ! 0 * u ! 1 -
      phi1 ! 0 * phi2 ! 1 * u ! 1 - phi1 ! 3 * phi2 ! 2 * u ! 1 +
      phi1 ! 2 * phi2 ! 3 * u ! 1 + phi1 ! 2 * phi2 ! 0 * u ! 2 +
      phi1 ! 3 * phi2 ! 1 * u ! 2 - phi1 ! 0 * phi2 ! 2 * u ! 2 -
      phi1 ! 1 * phi2 ! 3 * u ! 2 + phi1 ! 3 * phi2 ! 0 * u ! 3 -
      phi1 ! 2 * phi2 ! 1 * u ! 3 + phi1 ! 1 * phi2 ! 2 * u ! 3 -
      phi1 ! 0 * phi2 ! 3 * u ! 3"

definition hopping_trace_su2u1 :: "real list \<Rightarrow> real list \<Rightarrow> real list \<Rightarrow> real \<Rightarrow> real" where
  "hopping_trace_su2u1 phi1 u phi2 a =
    (let s = sin a;
         c = cos a
     in
         c * phi1 ! 0 * phi2 ! 0 * u ! 0 - s * phi1 ! 3 * phi2 ! 0 * u ! 0 +
           c * phi1 ! 1 * phi2 ! 1 * u ! 0 - s * phi1 ! 2 * phi2 ! 1 * u ! 0 +
           s * phi1 ! 1 * phi2 ! 2 * u ! 0 + c * phi1 ! 2 * phi2 ! 2 * u ! 0 +
           s * phi1 ! 0 * phi2 ! 3 * u ! 0 + c * phi1 ! 3 * phi2 ! 3 * u ! 0 +
           c * phi1 ! 1 * phi2 ! 0 * u ! 1 - s * phi1 ! 2 * phi2 ! 0 * u ! 1 -
           c * phi1 ! 0 * phi2 ! 1 * u ! 1 + s * phi1 ! 3 * phi2 ! 1 * u ! 1 -
           s * phi1 ! 0 * phi2 ! 2 * u ! 1 - c * phi1 ! 3 * phi2 ! 2 * u ! 1 +
           s * phi1 ! 1 * phi2 ! 3 * u ! 1 + c * phi1 ! 2 * phi2 ! 3 * u ! 1 +
           s * phi1 ! 1 * phi2 ! 0 * u ! 2 + c * phi1 ! 2 * phi2 ! 0 * u ! 2 +
           s * phi1 ! 0 * phi2 ! 1 * u ! 2 + c * phi1 ! 3 * phi2 ! 1 * u ! 2 -
           c * phi1 ! 0 * phi2 ! 2 * u ! 2 + s * phi1 ! 3 * phi2 ! 2 * u ! 2 -
           c * phi1 ! 1 * phi2 ! 3 * u ! 2 + s * phi1 ! 2 * phi2 ! 3 * u ! 2 +
           s * phi1 ! 0 * phi2 ! 0 * u ! 3 + c * phi1 ! 3 * phi2 ! 0 * u ! 3 -
           s * phi1 ! 1 * phi2 ! 1 * u ! 3 - c * phi1 ! 2 * phi2 ! 1 * u ! 3 +
           c * phi1 ! 1 * phi2 ! 2 * u ! 3 - s * phi1 ! 2 * phi2 ! 2 * u ! 3 -
           c * phi1 ! 0 * phi2 ! 3 * u ! 3 + s * phi1 ! 3 * phi2 ! 3 * u ! 3)"

definition tripletsq :: "real list \<Rightarrow> real" where
  "tripletsq a = 0.5 * (a ! 0 * a ! 0 + a ! 1 * a ! 1 + a ! 2 * a ! 2)"

definition hopping_trace_triplet :: "real list \<Rightarrow> real list \<Rightarrow> real list \<Rightarrow> real" where
  "hopping_trace_triplet a1 u a2 =
    0.5 * ( a1 ! 0 * a2 ! 0 * (u ! 0 * u ! 0) + a1 ! 1 * a2 ! 1 * (u ! 0 * u ! 0) +
      a1 ! 2 * a2 ! 2 * (u ! 0 * u ! 0) - 2 * a1 ! 2 * a2 ! 1 * u ! 0 * u ! 1 +
      2 * a1 ! 1 * a2 ! 2 * u ! 0 * u ! 1 + a1 ! 0 * a2 ! 0 * (u ! 1 * u ! 1) -
      a1 ! 1 * a2 ! 1 * (u ! 1 * u ! 1) - a1 ! 2 * a2 ! 2 * (u ! 1 * u ! 1) +
      2 * a1 ! 2 * a2 ! 0 * u ! 0 * u ! 2 - 2 * a1 ! 0 * a2 ! 2 * u ! 0 * u ! 2 +
      2 * a1 ! 1 * a2 ! 0 * u ! 1 * u ! 2 + 2 * a1 ! 0 * a2 ! 1 * u ! 1 * u ! 2 -
      a1 ! 0 * a2 ! 0 * (u ! 2 * u ! 2) + a1 ! 1 * a2 ! 1 * (u ! 2 * u ! 2) -
      a1 ! 2 * a2 ! 2 * (u ! 2 * u ! 2) - 2 * a1 ! 1 * a2 ! 0 * u ! 0 * u ! 3 +
      2 * a1 ! 0 * a2 ! 1 * u ! 0 * u ! 3 + 2 * a1 ! 2 * a2 ! 0 * u ! 1 * u ! 3 +
      2 * a1 ! 0 * a2 ! 2 * u ! 1 * u ! 3 + 2 * a1 ! 2 * a2 ! 1 * u ! 2 * u ! 3 +
      2 * a1 ! 1 * a2 ! 2 * u ! 2 * u ! 3 - a1 ! 0 * a2 ! 0 * (u ! 3 * u ! 3) -
      a1 ! 1 * a2 ! 1 * (u ! 3 * u ! 3) + a1 ! 2 * a2 ! 2 * (u ! 3 * u ! 3) )"

section \<open>Lattice, fields and parameters (su2.h)\<close>

text \<open>
  Sites and directions are array indices, hence natural numbers.  The neighbour tables
  \<open>next[i][dir]\<close> and \<open>prev[i][dir]\<close> and the field arrays are functions of their indices;
  which indices are valid is said by the hypotheses of the theorems (\<open>wf_lattice\<close>).
  In \<open>su2.h\<close> the record \<open>params\<close> carries the layout (\<open>dim\<close>, \<open>next\<close>, \<open>prev\<close>) together
  with the couplings, and \<open>magfield.c\<close> reads the layout from it; \<open>su2u1.c\<close> and
  \<open>measure.c\<close> read the layout from a separate \<open>lattice\<close>.  So \<open>params\<close> extends
  \<open>lattice\<close> here.  Couplings that the sources use but \<open>su2.h\<close> does not declare
  (\<open>betau1\<close>, the two-doublet couplings) are fields of \<open>params\<close> as well.
\<close>

record lattice =
  dim :: nat
  sites :: nat
  next_nb :: "nat \<Rightarrow> nat \<Rightarrow> nat"
  prev_nb :: "nat \<Rightarrow> nat \<Rightarrow> nat"

record params = lattice +
  betasu2 :: real
  betau1 :: real
  msq_phi :: real
  lambda_phi :: real
  msq_phi2 :: real
  m12sq :: complex
  lam2 :: real
  lam3 :: real
  lam4 :: real
  lam5 :: complex
  lam6 :: complex
  lam7 :: complex
  msq_triplet :: real
  a2 :: real
  b4 :: real

record fields =
  su2link :: "nat \<Rightarrow> nat \<Rightarrow> real list"
  u1link :: "nat \<Rightarrow> nat \<Rightarrow> real"
  su2doublet :: "nat \<Rightarrow> real list"
  doublet2 :: "nat \<Rightarrow> real list"
  su2triplet :: "nat \<Rightarrow> real list"
  singlet :: "nat \<Rightarrow> real list"

text \<open>
  The preprocessor symbols that select the field content are set by the makefile, which
  is not part of the sources; they are parameters of the model.
\<close>

record flags =
  HIGGS :: bool
  HIGGS2 :: bool
  TRIPLET :: bool
  U1 :: bool
  SINGLET :: bool
  NHIGGS :: nat

subsection \<open>Arithmetic of doubles that has no real value\<close>

text \<open>
  A division by zero and the square root of a negative number give an infinity or a NaN,
  which then spreads through every sum, product and quotient computed from it.  The
  result \<open>None\<close> stands for such a value.  \<open>atan2\<close> is the C library function on finite
  arguments.
\<close>

definition fdiv :: "real \<Rightarrow> real \<Rightarrow> real option" where
  "fdiv x y = (if y = 0 then None else Some (x / y))"

definition fsqrt :: "real \<Rightarrow> real option" where
  "fsqrt x = (if x < 0 then None else Some (sqrt x))"

definition atan2 :: "real \<Rightarrow> real \<Rightarrow> real" where
  "atan2 y x =
    (if 0 < x then arctan (y / x)
     else if x < 0 then (if 0 \<le> y then arctan (y / x) + pi else arctan (y / x) - pi)
     else if 0 < y then pi / 2
     else if y < 0 then - pi / 2
     else 0)"

text \<open>The loops \<open>for (k...) a[k] += b[k]\<close> and \<open>for (k...) a[k] /= d\<close> over a whole buffer.\<close>

definition vadd :: "real list \<Rightarrow> real list \<Rightarrow> real list" where
  "vadd a b = map2 (+) a b"

definition vdiv :: "real list \<Rightarrow> real \<Rightarrow> real list option" where
  "vdiv a d = (if d = 0 then None else Some (map (\<lambda>x. x / d) a))"

text \<open>The loop \<open>for (k=1; k<SU2LINK; k++) u[k] = -1.0 * u[k]\<close>.\<close>

definition su2conj :: "real list \<Rightarrow> real list" where
  "su2conj u = [u ! 0, -1 * u ! 1, -1 * u ! 2, -1 * u ! 3]"

section \<open>Plaquettes, staples and the gauge action (su2u1.c)\<close>

definition su2ptrace :: "lattice \<Rightarrow> fields \<Rightarrow> nat \<Rightarrow> nat \<Rightarrow> nat \<Rightarrow> real" where
  "su2ptrace l f i dir1 dir2 =
    (let u1 = su2link f i dir1;
         u2 = su2link f (next_nb l i dir1) dir2;
         u3 = su2link f (next_nb l i dir2) dir1;
         u4 = su2link f i dir2
     in su2trace4 u1 u2 u3 u4)"

text \<open>\<open>su2plaquette\<close>: the value of the output buffer \<open>u1\<close>.\<close>

definition su2plaquette :: "lattice \<Rightarrow> fields \<Rightarrow> nat \<Rightarrow> nat \<Rightarrow> nat \<Rightarrow> real list" where
  "su2plaquette l f i dir1 dir2 =
    (let u1 = su2link f i dir1;
         u2 = su2link f (next_nb l i dir1) dir2;
         u3 = su2link f (next_nb l i dir2) dir1;
         u4 = su2link f i dir2;
         u3 = su2conj u3;
         u4 = su2conj u4;
         u3 = su2rot u3 u4;
         u2 = su2rot u2 u3;
         u1 = su2rot u1 u2
     in u1)"

text \<open>\<open>su2staple_wilson\<close>: the value of the output buffer \<open>V\<close>.\<close>

definition su2staple_wilson :: "lattice \<Rightarrow> fields \<Rightarrow> nat \<Rightarrow> nat \<Rightarrow> real list" where
  "su2staple_wilson l f i dir =
    fold (\<lambda>j tot.
        if j \<noteq> dir then
          (let u1 = su2link f (next_nb l i dir) j;
               u2 = su2link f (next_nb l i j) dir;
               u3 = su2link f i j;
               V = su2staple_counterwise u1 u2 u3;
               tot = vadd tot V;
               u1 = su2link f (prev_nb l (next_nb l i dir) j) j;
               u2 = su2link f (prev_nb l i j) dir;
               u3 = su2link f (prev_nb l i j) j;
               V = su2staple_clockwise u1 u2 u3
           in vadd tot V)
        else tot)
      [0..<dim l] [0, 0, 0, 0]"

definition local_su2wilson :: "lattice \<Rightarrow> fields \<Rightarrow> params \<Rightarrow> nat \<Rightarrow> real" where
  "local_su2wilson l f p i =
    (let res = fold (\<lambda>dir1 res.
                 fold (\<lambda>dir2 res. res + (1 - 0.5 * su2ptrace l f i dir2 dir1)) [0..<dir1] res)
               [0..<dim l] 0
     in betasu2 p * res)"

section \<open>U(1) links (su2u1.c)\<close>

definition u1ptrace :: "lattice \<Rightarrow> fields \<Rightarrow> nat \<Rightarrow> nat \<Rightarrow> nat \<Rightarrow> real" where
  "u1ptrace l f i dir1 dir2 =
    (let u1 = u1link f i dir1;
         u2 = u1link f (next_nb l i dir1) dir2;
         u3 = u1link f (next_nb l i dir2) dir1;
         u4 = u1link f i dir2
     in cos (u1 + u2 - u3 - u4))"

definition local_u1wilson :: "lattice \<Rightarrow> fields \<Rightarrow> params \<Rightarrow> nat \<Rightarrow> real" where
  "local_u1wilson l f p i =
    (let res = fold (\<lambda>dir1 res.
                 fold (\<lambda>dir2 res. res + (1 - u1ptrace l f i dir2 dir1)) [0..<dir1] res)
               [0..<dim l] 0
     in betau1 p * res)"

section \<open>Doublets and triplets (su2u1.c)\<close>

definition hopping_doublet_forward ::
    "flags \<Rightarrow> lattice \<Rightarrow> fields \<Rightarrow> params \<Rightarrow> (nat \<Rightarrow> real list) \<Rightarrow> nat \<Rightarrow> nat \<Rightarrow> real" where
  "hopping_doublet_forward cfg l f p phi i dir =
    (let phi1 = phi i;
         tot = 0;
         phi2 = phi (next_nb l i dir);
         U = su2link f i dir
     in if \<not> U1 cfg then tot - hopping_trace phi1 U phi2
        else tot - hopping_trace_su2u1 phi1 U phi2 (u1link f i dir))"

definition covariant_doublet ::
    "flags \<Rightarrow> lattice \<Rightarrow> fields \<Rightarrow> params \<Rightarrow> (nat \<Rightarrow> real list) \<Rightarrow> nat \<Rightarrow> real" where
  "covariant_doublet cfg l f p phi i =
    (let tot = 0;
         mod_sq = doubletsq (phi i)
     in fold (\<lambda>dir tot. tot + (2 * mod_sq + hopping_doublet_forward cfg l f p phi i dir))
          [0..<dim l] tot)"

definition higgspotential :: "flags \<Rightarrow> fields \<Rightarrow> params \<Rightarrow> nat \<Rightarrow> real" where
  "higgspotential cfg f p i =
    (let pot = 0;
         mod_sq = doubletsq (su2doublet f i);
         pot = (if HIGGS cfg then pot + (msq_phi p * mod_sq + lambda_phi p * mod_sq * mod_sq) else pot);
         pot = (if HIGGS cfg \<and> HIGGS2 cfg then
                  (let f11 = mod_sq;
                       f22 = doubletsq (doublet2 f i);
                       h1 = su2doublet f i;
                       h2 = doublet2 f i;
                       R = 0.5 * (h1 ! 0 * h2 ! 0 + h1 ! 1 * h2 ! 1 + h1 ! 2 * h2 ! 2 + h1 ! 3 * h2 ! 3);
                       I = 0.5 * (h1 ! 3 * h2 ! 0 + h1 ! 2 * h2 ! 1 - h1 ! 1 * h2 ! 2 - h1 ! 0 * h2 ! 3)
                   in pot + (msq_phi2 p * f22 + Re (m12sq p) * R - Im (m12sq p) * I
                        + lam2 p * f22 * f22 + lam3 p * f11 * f22 + lam4 p * (R * R + I * I)
                        + Re (lam5 p) * (R * R - I * I) - 2 * Im (lam5 p) * R * I
                        + f11 * (Re (lam6 p) * R - Im (lam6 p) * I)
                        + f22 * (Re (lam7 p) * R + Im (lam7 p) * I)))
                else pot);
         mod_trip = tripletsq (su2triplet f i);
         pot = (if TRIPLET cfg then pot + (msq_triplet p * mod_trip + b4 p * mod_trip * mod_trip)
                else pot);
         pot = (if TRIPLET cfg \<and> HIGGS cfg then pot + a2 p * mod_sq * mod_trip else pot)
     in pot)"

definition hopping_triplet_forward :: "lattice \<Rightarrow> fields \<Rightarrow> params \<Rightarrow> nat \<Rightarrow> nat \<Rightarrow> real" where
  "hopping_triplet_forward l f p i dir =
    (let a1 = su2triplet f i;
         tot = 0;
         a2 = su2triplet f (next_nb l i dir);
         U = su2link f i dir
     in tot - 2 * hopping_trace_triplet a1 U a2)"

definition covariant_triplet :: "lattice \<Rightarrow> fields \<Rightarrow> params \<Rightarrow> nat \<Rightarrow> real" where
  "covariant_triplet l f p i =
    (let tot = 0;
         mod_sq = tripletsq (su2triplet f i)
     in fold (\<lambda>dir tot. tot + (2 * mod_sq + hopping_triplet_forward l f p i dir)) [0..<dim l] tot)"

section \<open>Local actions (su2u1.c, measure.c)\<close>

definition localact_su2link ::
    "flags \<Rightarrow> lattice \<Rightarrow> fields \<Rightarrow> params \<Rightarrow> nat \<Rightarrow> nat \<Rightarrow> real" where
  "localact_su2link cfg l f p i dir =
    (let tot = fold (\<lambda>dir2 tot.
                 if dir2 \<noteq> dir then
                   (let tot = tot + (1 - 0.5 * su2ptrace l f i dir dir2)
                    in tot + (1 - 0.5 * su2ptrace l f (prev_nb l i dir2) dir dir2))
                 else tot)
               [0..<dim l] 0;
         tot = tot * betasu2 p;
         tot = (if HIGGS cfg then tot + hopping_doublet_forward cfg l f p (su2doublet f) i dir
                else tot);
         tot = (if HIGGS2 cfg then tot + hopping_doublet_forward cfg l f p (doublet2 f) i dir
                else tot);
         tot = (if TRIPLET cfg then tot + hopping_triplet_forward l f p i dir else tot)
     in tot)"

text \<open>
  \<open>measure.c\<close> calls \<open>covariant_doublet(l, f, i, db)\<close> with the number \<open>db\<close> of the
  doublet, \<open>su2u1.c\<close> defines it on the field array of the doublet.  The array of doublet
  \<open>db\<close> is chosen as \<open>su2link_staple\<close> chooses it: \<open>su2doublet\<close> for 0, \<open>doublet2\<close> for 1.
\<close>

definition higgs_field :: "fields \<Rightarrow> nat \<Rightarrow> nat \<Rightarrow> real list" where
  "higgs_field f db = (if db = 0 then su2doublet f else doublet2 f)"

definition action_local :: "flags \<Rightarrow> lattice \<Rightarrow> fields \<Rightarrow> params \<Rightarrow> nat \<Rightarrow> real" where
  "action_local cfg l f p i =
    (let tot = 0;
         tot = tot + local_su2wilson l f p i;
         tot = (if U1 cfg then tot + local_u1wilson l f p i else tot);
         tot = tot + higgspotential cfg f p i;
         tot = (if 0 < NHIGGS cfg then
                  fold (\<lambda>db tot. tot + covariant_doublet cfg l f p (higgs_field f db) i)
                    [0..<NHIGGS cfg] tot
                else tot);
         tot = (if TRIPLET cfg then tot + covariant_triplet l f p i else tot);
         tot = (if SINGLET cfg then
                  (let S = singlet f i ! 0;
                       tot = tot + real (dim l) * S * S
                   in fold (\<lambda>dir tot. tot - S * singlet f (next_nb l i dir) ! 0) [0..<dim l] tot)
                else tot)
     in tot)"

text \<open>The loop of \<open>measure\<close> that adds \<open>action_local\<close> over the sites of the lattice.\<close>

definition total_action :: "flags \<Rightarrow> lattice \<Rightarrow> fields \<Rightarrow> params \<Rightarrow> real" where
  "total_action cfg l f p = fold (\<lambda>i action. action + action_local cfg l f p i) [0..<sites l] 0"

section \<open>Smearing (su2u1.c)\<close>

definition su2staple_wilson_onedir ::
    "lattice \<Rightarrow> fields \<Rightarrow> nat \<Rightarrow> nat \<Rightarrow> nat \<Rightarrow> int \<Rightarrow> real list" where
  "su2staple_wilson_onedir l f i mu nu dagger =
    (if mu = nu then [1, 0, 0, 0]
     else
      (let u1 = su2link f (next_nb l i mu) nu;
           u2 = su2link f (next_nb l i nu) mu;
           u3 = su2link f i nu;
           tot = su2staple_counterwise u1 u2 u3;
           tot = (if dagger \<noteq> 0 then su2conj tot else tot);
           res = tot;
           site = next_nb l i mu;
           site = prev_nb l site nu;
           u1 = su2link f site nu;
           u2 = su2link f (prev_nb l i nu) mu;
           u3 = su2link f (prev_nb l i nu) nu;
           tot = su2staple_clockwise u1 u2 u3;
           tot = (if dagger \<noteq> 0 then su2conj tot else tot)
       in vadd res tot))"

text \<open>
  \<open>smear_link\<close>: the value of the output buffer \<open>res\<close>.  The warning printed when
  \<open>smear_dir[dir]\<close> is zero changes nothing in the result and is left out.
\<close>

definition smear_link ::
    "lattice \<Rightarrow> fields \<Rightarrow> (nat \<Rightarrow> int) \<Rightarrow> nat \<Rightarrow> nat \<Rightarrow> real list option" where
  "smear_link l f smear_dir i dir =
    (let res = su2link f i dir;
         v2 = su2link f (next_nb l i dir) dir;
         paths = (1 :: int);
         (res, v2, paths) =
           fold (\<lambda>j (res, v2, paths).
               if j \<noteq> dir \<and> smear_dir j \<noteq> 0 then
                 (let stap = su2staple_wilson_onedir l f i dir j 1;
                      res = vadd res stap;
                      stap = su2staple_wilson_onedir l f (next_nb l i dir) dir j 1;
                      v2 = vadd v2 stap
                  in (res, v2, paths + 2))
               else (res, v2, paths))
             [0..<dim l] (res, v2, paths)
     in case vdiv res (real_of_int paths) of None \<Rightarrow> None | Some res \<Rightarrow>
        (case vdiv v2 (real_of_int paths) of None \<Rightarrow> None | Some v2 \<Rightarrow>
        (let res = su2rot res v2;
             det = su2sqr res
         in case fsqrt det of None \<Rightarrow> None | Some det \<Rightarrow> vdiv res det)))"

text \<open>\<open>smear_triplet\<close>: the value of the output buffer \<open>res\<close>.\<close>

definition smear_triplet ::
    "lattice \<Rightarrow> fields \<Rightarrow> (nat \<Rightarrow> int) \<Rightarrow> nat \<Rightarrow> real list option" where
  "smear_triplet l f smear_dir i =
    (let (cov, sites) =
           fold (\<lambda>dir (cov, sites).
               if smear_dir dir \<noteq> 0 then
                 (let u = su2link f i dir;
                      next = next_nb l i dir;
                      b = su2triplet f next;
                      cov = [cov ! 0 + (b ! 0 * (u ! 0 * u ! 0) + b ! 0 * (u ! 1 * u ! 1) -
                     2 * b ! 2 * u ! 0 * u ! 2 + 2 * b ! 1 * u ! 1 * u ! 2 -
                     b ! 0 * (u ! 2 * u ! 2) + 2 * b ! 1 * u ! 0 * u ! 3 +
                     2 * b ! 2 * u ! 1 * u ! 3 - b ! 0 * (u ! 3 * u ! 3)),
                             cov ! 1 + (b ! 1 * (u ! 0 * u ! 0) + 2 * b ! 2 * u ! 0 * u ! 1 -
                     b ! 1 * (u ! 1 * u ! 1) + 2 * b ! 0 * u ! 1 * u ! 2 +
                     b ! 1 * (u ! 2 * u ! 2) - 2 * b ! 0 * u ! 0 * u ! 3 +
                     2 * b ! 2 * u ! 2 * u ! 3 - b ! 1 * (u ! 3 * u ! 3)),
                             cov ! 2 + (b ! 2 * (u ! 0 * u ! 0) - 2 * b ! 1 * u ! 0 * u ! 1 -
                     b ! 2 * (u ! 1 * u ! 1) + 2 * b ! 0 * u ! 0 * u ! 2 -
                     b ! 2 * (u ! 2 * u ! 2) + 2 * b ! 0 * u ! 1 * u ! 3 +
                     2 * b ! 1 * u ! 2 * u ! 3 + b ! 2 * (u ! 3 * u ! 3))];
                      prev = prev_nb l i dir;
                      u = su2link f prev dir;
                      b = su2triplet f prev;
                      cov = [cov ! 0 + (b ! 0 * (u ! 0 * u ! 0) + b ! 0 * (u ! 1 * u ! 1) +
                     2 * b ! 2 * u ! 0 * u ! 2 + 2 * b ! 1 * u ! 1 * u ! 2 -
                     b ! 0 * (u ! 2 * u ! 2) - 2 * b ! 1 * u ! 0 * u ! 3 +
                     2 * b ! 2 * u ! 1 * u ! 3 - b ! 0 * (u ! 3 * u ! 3)),
                             cov ! 1 + (b ! 1 * (u ! 0 * u ! 0) - 2 * b ! 2 * u ! 0 * u ! 1 -
                     b ! 1 * (u ! 1 * u ! 1) + 2 * b ! 0 * u ! 1 * u ! 2 +
                     b ! 1 * (u ! 2 * u ! 2) + 2 * b ! 0 * u ! 0 * u ! 3 +
                     2 * b ! 2 * u ! 2 * u ! 3 - b ! 1 * (u ! 3 * u ! 3)),
                             cov ! 2 + (b ! 2 * (u ! 0 * u ! 0) + 2 * b ! 1 * u ! 0 * u ! 1 -
                     b ! 2 * (u ! 1 * u ! 1) - 2 * b ! 0 * u ! 0 * u ! 2 -
                     b ! 2 * (u ! 2 * u ! 2) + 2 * b ! 0 * u ! 1 * u ! 3 +
                     2 * b ! 1 * u ! 2 * u ! 3 + b ! 2 * (u ! 3 * u ! 3))]
                  in (cov, sites + 2))
               else (cov, sites))
             [0..<dim l] ([0, 0, 0], 1 :: int)
     in vdiv (vadd (su2triplet f i) cov) (real_of_int sites))"

section \<open>Abelian projection and magnetic field (magfield.c)\<close>

definition projector :: "real list \<Rightarrow> real list option" where
  "projector adjoint =
    (let a1 = adjoint ! 0;
         a2 = adjoint ! 1;
         a3 = adjoint ! 2
     in case fsqrt (a1 * a1 + a2 * a2 + a3 * a3) of None \<Rightarrow> None | Some modulus \<Rightarrow>
        (case fdiv (2 * a1) modulus of None \<Rightarrow> None | Some p0 \<Rightarrow>
        (case fdiv (2 * a2) modulus of None \<Rightarrow> None | Some p1 \<Rightarrow>
        (case fdiv (2 * a3) modulus of None \<Rightarrow> None | Some p2 \<Rightarrow>
           Some [p0, p1, p2]))))"

text \<open>\<open>project_u1\<close>: the value of the output buffer \<open>pro\<close>.\<close>

definition project_u1 :: "params \<Rightarrow> fields \<Rightarrow> nat \<Rightarrow> nat \<Rightarrow> real list option" where
  "project_u1 p f i dir =
    (let nextsite = next_nb p i dir
     in case projector (su2triplet f i) of None \<Rightarrow> None | Some hl \<Rightarrow>
        (case projector (su2triplet f nextsite) of None \<Rightarrow> None | Some hr \<Rightarrow>
        (let u = su2link f i dir
         in Some
       [(4 * u ! 0 + 2 * hl ! 2 * u ! 0 + hl ! 0 * hr ! 0 * u ! 0 + hl ! 1 * hr ! 1 * u ! 0
           + 2 * hr ! 2 * u ! 0 + hl ! 2 * hr ! 2 * u ! 0 + 2 * hl ! 1 * u ! 1 -
           2 * hr ! 1 * u ! 1 - hl ! 2 * hr ! 1 * u ! 1 + hl ! 1 * hr ! 2 * u ! 1 -
           2 * hl ! 0 * u ! 2 + 2 * hr ! 0 * u ! 2 + hl ! 2 * hr ! 0 * u ! 2 -
           hl ! 0 * hr ! 2 * u ! 2 - hl ! 1 * hr ! 0 * u ! 3 + hl ! 0 * hr ! 1 * u ! 3)/16,
        (4 * u ! 0 + 2 * hl ! 2 * u ! 0 + hl ! 0 * hr ! 0 * u ! 0 + hl ! 1 * hr ! 1 * u ! 0
           + 2 * hr ! 2 * u ! 0 + hl ! 2 * hr ! 2 * u ! 0 + 2 * hl ! 1 * u ! 1 -
           2 * hr ! 1 * u ! 1 - hl ! 2 * hr ! 1 * u ! 1 + hl ! 1 * hr ! 2 * u ! 1 -
           2 * hl ! 0 * u ! 2 + 2 * hr ! 0 * u ! 2 + hl ! 2 * hr ! 0 * u ! 2 -
           hl ! 0 * hr ! 2 * u ! 2 - hl ! 1 * hr ! 0 * u ! 3 + hl ! 0 * hr ! 1 * u ! 3)/16,
        (2 * hl ! 0 * u ! 0 + 2 * hr ! 0 * u ! 0 + hl ! 2 * hr ! 0 * u ! 0 -
           hl ! 0 * hr ! 2 * u ! 0 + hl ! 1 * hr ! 0 * u ! 1 + hl ! 0 * hr ! 1 * u ! 1 +
           4 * u ! 2 + 2 * hl ! 2 * u ! 2 - hl ! 0 * hr ! 0 * u ! 2 +
           hl ! 1 * hr ! 1 * u ! 2 - 2 * hr ! 2 * u ! 2 - hl ! 2 * hr ! 2 * u ! 2 -
           2 * hl ! 1 * u ! 3 + 2 * hr ! 1 * u ! 3 + hl ! 2 * hr ! 1 * u ! 3 +
           hl ! 1 * hr ! 2 * u ! 3)/16,
        (2 * hl ! 0 * u ! 0 + 2 * hr ! 0 * u ! 0 + hl ! 2 * hr ! 0 * u ! 0 -
           hl ! 0 * hr ! 2 * u ! 0 + hl ! 1 * hr ! 0 * u ! 1 + hl ! 0 * hr ! 1 * u ! 1 +
           4 * u ! 2 + 2 * hl ! 2 * u ! 2 - hl ! 0 * hr ! 0 * u ! 2 +
           hl ! 1 * hr ! 1 * u ! 2 - 2 * hr ! 2 * u ! 2 - hl ! 2 * hr ! 2 * u ! 2 -
           2 * hl ! 1 * u ! 3 + 2 * hr ! 1 * u ! 3 + hl ! 2 * hr ! 1 * u ! 3 +
           hl ! 1 * hr ! 2 * u ! 3)/16,
        (2 * hl ! 0 * u ! 0 + 2 * hr ! 0 * u ! 0 - hl ! 2 * hr ! 0 * u ! 0 +
           hl ! 0 * hr ! 2 * u ! 0 - hl ! 1 * hr ! 0 * u ! 1 - hl ! 0 * hr ! 1 * u ! 1 -
           4 * u ! 2 + 2 * hl ! 2 * u ! 2 + hl ! 0 * hr ! 0 * u ! 2 -
           hl ! 1 * hr ! 1 * u ! 2 - 2 * hr ! 2 * u ! 2 + hl ! 2 * hr ! 2 * u ! 2 -
           2 * hl ! 1 * u ! 3 + 2 * hr ! 1 * u ! 3 - hl ! 2 * hr ! 1 * u ! 3 -
           hl ! 1 * hr ! 2 * u ! 3)/16,
        (2 * hl ! 0 * u ! 0 + 2 * hr ! 0 * u ! 0 - hl ! 2 * hr ! 0 * u ! 0 +
           hl ! 0 * hr ! 2 * u ! 0 - hl ! 1 * hr ! 0 * u ! 1 - hl ! 0 * hr ! 1 * u ! 1 -
           4 * u ! 2 + 2 * hl ! 2 * u ! 2 + hl ! 0 * hr ! 0 * u ! 2 -
           hl ! 1 * hr ! 1 * u ! 2 - 2 * hr ! 2 * u ! 2 + hl ! 2 * hr ! 2 * u ! 2 -
           2 * hl ! 1 * u ! 3 + 2 * hr ! 1 * u ! 3 - hl ! 2 * hr ! 1 * u ! 3 -
           hl ! 1 * hr ! 2 * u ! 3)/16,
        (4 * u ! 0 - 2 * hl ! 2 * u ! 0 + hl ! 0 * hr ! 0 * u ! 0 + hl ! 1 * hr ! 1 * u ! 0
           - 2 * hr ! 2 * u ! 0 + hl ! 2 * hr ! 2 * u ! 0 - 2 * hl ! 1 * u ! 1 +
           2 * hr ! 1 * u ! 1 - hl ! 2 * hr ! 1 * u ! 1 + hl ! 1 * hr ! 2 * u ! 1 +
           2 * hl ! 0 * u ! 2 - 2 * hr ! 0 * u ! 2 + hl ! 2 * hr ! 0 * u ! 2 -
           hl ! 0 * hr ! 2 * u ! 2 - hl ! 1 * hr ! 0 * u ! 3 + hl ! 0 * hr ! 1 * u ! 3)/16,
        (4 * u ! 0 - 2 * hl ! 2 * u ! 0 + hl ! 0 * hr ! 0 * u ! 0 + hl ! 1 * hr ! 1 * u ! 0
           - 2 * hr ! 2 * u ! 0 + hl ! 2 * hr ! 2 * u ! 0 - 2 * hl ! 1 * u ! 1 +
           2 * hr ! 1 * u ! 1 - hl ! 2 * hr ! 1 * u ! 1 + hl ! 1 * hr ! 2 * u ! 1 +
           2 * hl ! 0 * u ! 2 - 2 * hr ! 0 * u ! 2 + hl ! 2 * hr ! 0 * u ! 2 -
           hl ! 0 * hr ! 2 * u ! 2 - hl ! 1 * hr ! 0 * u ! 3 + hl ! 0 * hr ! 1 * u ! 3)/16])))"

definition alpha_proj :: "params \<Rightarrow> fields \<Rightarrow> nat \<Rightarrow> nat \<Rightarrow> nat \<Rightarrow> real option" where
  "alpha_proj p f i dir1 dir2 =
    (case project_u1 p f i dir1 of None \<Rightarrow> None | Some u1 \<Rightarrow>
    (case project_u1 p f (next_nb p i dir1) dir2 of None \<Rightarrow> None | Some u2 \<Rightarrow>
    (case project_u1 p f (next_nb p i dir2) dir1 of None \<Rightarrow> None | Some u3 \<Rightarrow>
    (case project_u1 p f i dir2 of None \<Rightarrow> None | Some u4 \<Rightarrow>
      (let u1 = matmat u1 u2 0;
           u1 = matmat u1 u3 1;
           u1 = matmat u1 u4 1;
           alpha = atan2 (u1 ! 1 + u1 ! 7) (u1 ! 0 + u1 ! 6)
       in case fsqrt (betasu2 p) of None \<Rightarrow> None | Some s \<Rightarrow> Some (alpha * s))))))"

text \<open>The updates \<open>res += alpha\<close> and \<open>res -= alpha\<close> on values that may be NaN.\<close>

definition oplus :: "real option \<Rightarrow> real option \<Rightarrow> real option" where
  "oplus x y = (case x of None \<Rightarrow> None | Some a \<Rightarrow> (case y of None \<Rightarrow> None | Some b \<Rightarrow> Some (a + b)))"

definition ominus :: "real option \<Rightarrow> real option \<Rightarrow> real option" where
  "ominus x y = (case x of None \<Rightarrow> None | Some a \<Rightarrow> (case y of None \<Rightarrow> None | Some b \<Rightarrow> Some (a - b)))"

definition magfield :: "params \<Rightarrow> fields \<Rightarrow> nat \<Rightarrow> nat \<Rightarrow> real option" where
  "magfield p f i dir =
    fold (\<lambda>d1 res.
        if d1 = dir then res
        else
          fold (\<lambda>d2 res.
              if d2 = dir then res
              else
                (let alpha = alpha_proj p f i d1 d2
                 in if d1 > dir then oplus res alpha
                    else if d2 > dir then ominus res alpha
                    else oplus res alpha))
            [d1 + 1..<dim p] res)
      [0..<dim p] (Some 0)"

section \<open>Well-formed lattices and example configurations\<close>

text \<open>
  The layout code is not part of the sources.  What the theorems need of it is stated
  here: the neighbour tables stay inside the lattice and \<open>prev\<close> undoes \<open>next\<close> in every
  direction (\<open>wf_lattice\<close>), and no site is its own neighbour, which holds on a periodic
  lattice of extent at least 2 in every direction (\<open>no_self_neighbour\<close>).
\<close>

definition wf_lattice :: "lattice \<Rightarrow> bool" where
  "wf_lattice l =
    (\<forall>i<sites l. \<forall>d<dim l.
       next_nb l i d < sites l \<and> prev_nb l i d < sites l
       \<and> prev_nb l (next_nb l i d) d = i \<and> next_nb l (prev_nb l i d) d = i)"

definition no_self_neighbour :: "lattice \<Rightarrow> bool" where
  "no_self_neighbour l = (\<forall>i<sites l. \<forall>d<dim l. next_nb l i d \<noteq> i)"

text \<open>
  The periodic \<open>2 \<times> 2\<close> lattice in two dimensions: site \<open>x + 2 y\<close>, direction 0 steps in
  \<open>x\<close> and direction 1 in \<open>y\<close>; with extent 2 the forward and the backward neighbour are
  the same site.
\<close>

definition torus2_nb :: "nat \<Rightarrow> nat \<Rightarrow> nat" where
  "torus2_nb i d =
    (if d = 0 then (if even i then i + 1 else i - 1) else (if i < 2 then i + 2 else i - 2))"

definition torus2 :: lattice where
  "torus2 = \<lparr>dim = 2, sites = 4, next_nb = torus2_nb, prev_nb = torus2_nb\<rparr>"

definition torus2_params :: "real \<Rightarrow> params" where
  "torus2_params beta =
    \<lparr>dim = 2, sites = 4, next_nb = torus2_nb, prev_nb = torus2_nb,
     betasu2 = beta, betau1 = 0, msq_phi = 0, lambda_phi = 0, msq_phi2 = 0, m12sq = 0,
     lam2 = 0, lam3 = 0, lam4 = 0, lam5 = 0, lam6 = 0, lam7 = 0,
     msq_triplet = 0, a2 = 0, b4 = 0\<rparr>"

text \<open>The same link \<open>U\<close> on every site and direction and the same triplet \<open>A\<close> on every
  site; \<open>set_link\<close> replaces the link at one site and direction.\<close>

definition uniform_fields :: "real list \<Rightarrow> real list \<Rightarrow> fields" where
  "uniform_fields U A =
    \<lparr>su2link = (\<lambda>i d. U), u1link = (\<lambda>i d. 0), su2doublet = (\<lambda>i. [0, 0, 0, 0]),
     doublet2 = (\<lambda>i. [0, 0, 0, 0]), su2triplet = (\<lambda>i. A), singlet = (\<lambda>i. [0])\<rparr>"

definition set_link :: "fields \<Rightarrow> nat \<Rightarrow> nat \<Rightarrow> real list \<Rightarrow> fields" where
  "set_link f i d U = f\<lparr>su2link := (su2link f)(i := (su2link f i)(d := U))\<rparr>"

text \<open>Only the gauge field is present.\<close>

definition pure_gauge :: flags where
  "pure_gauge = \<lparr>HIGGS = False, HIGGS2 = False, TRIPLET = False, U1 = False,
                  SINGLET = False, NHIGGS = 0\<rparr>"

text \<open>
  \<open>su2u1.c\<close> tests \<open>HIGGS\<close> and \<open>HIGGS2\<close>, \<open>measure.c\<close> tests \<open>NHIGGS\<close>, the number of
  doublets.  A build sets them together: the second doublet needs the first, and
  \<open>NHIGGS\<close> counts the doublets that are switched on.
\<close>

definition flags_consistent :: "flags \<Rightarrow> bool" where
  "flags_consistent cfg =
    ((HIGGS2 cfg \<longrightarrow> HIGGS cfg)
     \<and> NHIGGS cfg = (if HIGGS2 cfg then 2 else if HIGGS cfg then 1 else 0))"

text \<open>
  The periodic \<open>2 \<times> 2 \<times> 2\<close> lattice in three dimensions: site \<open>x + 2 y + 4 z\<close>; a step in
  direction \<open>d\<close> flips digit \<open>d\<close> of the site number.
\<close>

definition torus3_nb :: "nat \<Rightarrow> nat \<Rightarrow> nat" where
  "torus3_nb i d = (if even (i div 2 ^ d) then i + 2 ^ d else i - 2 ^ d)"

definition torus3_params :: "real \<Rightarrow> params" where
  "torus3_params beta =
    \<lparr>dim = 3, sites = 8, next_nb = torus3_nb, prev_nb = torus3_nb,
     betasu2 = beta, betau1 = 0, msq_phi = 0, lambda_phi = 0, msq_phi2 = 0, m12sq = 0,
     lam2 = 0, lam3 = 0, lam4 = 0, lam5 = 0, lam6 = 0, lam7 = 0,
     msq_triplet = 0, a2 = 0, b4 = 0\<rparr>"

section \<open>The magnetic field as the spec states it\<close>

text \<open>
  Follows the spec's words: the sign is \<open>+\<close> for \<open>dir < d1 < d2\<close>, \<open>-\<close> for
  \<open>d1 < dir < d2\<close> and \<open>+\<close> for \<open>d1 < d2 < dir\<close>; the field component is the sum of the
  signed projected plaquette angles over the pairs \<open>d1 < d2\<close> of directions other than
  \<open>dir\<close>, each pair once and with no further factor.
\<close>

definition levi_civita_sign :: "nat \<Rightarrow> nat \<Rightarrow> nat \<Rightarrow> real" where
  "levi_civita_sign dir d1 d2 =
    (if dir < d1 \<and> d1 < d2 then 1
     else if d1 < dir \<and> dir < d2 then - 1
     else if d1 < d2 \<and> d2 < dir then 1
     else 0)"

definition orthogonal_pairs :: "nat \<Rightarrow> nat \<Rightarrow> (nat \<times> nat) list" where
  "orthogonal_pairs n dir =
    filter (\<lambda>(d1, d2). d1 < d2 \<and> d1 \<noteq> dir \<and> d2 \<noteq> dir) (List.product [0..<n] [0..<n])"

definition magnetic_field_component :: "params \<Rightarrow> fields \<Rightarrow> nat \<Rightarrow> nat \<Rightarrow> real" where
  "magnetic_field_component p f i dir =
    (\<Sum>(d1, d2)\<leftarrow>orthogonal_pairs (dim p) dir.
        levi_civita_sign dir d1 d2 * the (alpha_proj p f i d1 d2))"

section \<open>Theorems\<close>

subsection \<open>Compact-matrix algebra\<close>

lemma su2sqr_su2rot: "su2sqr (su2rot u1 u2) = su2sqr u1 * su2sqr u2"
  unfolding su2sqr_def su2rot_def Let_def by (simp add: algebra_simps)

lemma length_su2rot: "length (su2rot a b) = 4"
  by (simp add: su2rot_def Let_def)

lemma length_matmat: "length (matmat a b d) = 8"
  by (simp add: matmat_def Let_def split: prod.splits)

lemma mem_write_outside: "\<not> (p \<le> a \<and> a < p + length xs) \<Longrightarrow> mem_write m p xs a = m a"
  by (auto simp: mem_write_def)

lemma mem_read_write_other:
  "p2 + n \<le> p1 \<or> p1 + length xs \<le> p2 \<Longrightarrow> mem_read (mem_write m p1 xs) p2 n = mem_read m p2 n"
  by (auto simp: mem_read_def mem_write_def)

lemma mem_read_write_same: "mem_read (mem_write m p xs) p (length xs) = xs"
  by (auto simp: mem_read_def mem_write_def intro: nth_equalityI)

text \<open>The functional and the memory reading of \<open>su2rot\<close> agree, also when both
  pointers are the same buffer.\<close>

lemma su2rot_mem_result:
  "mem_read (su2rot_mem m u1 u2) u1 SU2LINK = su2rot (mem_read m u1 SU2LINK) (mem_read m u2 SU2LINK)"
  using mem_read_write_same[of m u1 "su2rot (mem_read m u1 SU2LINK) (mem_read m u2 SU2LINK)"]
  by (simp add: su2rot_mem_def length_su2rot SU2LINK_def)

text \<open>
  C2: for all inputs \<open>u1\<close>, \<open>u2\<close> with \<open>u[0]^2 + u[1]^2 + u[2]^2 + u[3]^2 = 1\<close>, the first
  operand again satisfies \<open>su2sqr(u1) = 1\<close> after \<open>su2rot(u1, u2)\<close> has overwritten it
  (in exact real arithmetic).
\<close>

theorem su2rot_preserves_unit_norm:
  assumes "su2sqr u1 = 1" and "su2sqr u2 = 1"
  shows "su2sqr (su2rot u1 u2) = 1"
  using assms by (simp add: su2sqr_su2rot)

theorem su2rot_preserves_unit_norm_witness:
  "su2sqr [3/5, 4/5, 0, 0] = 1 \<and> su2sqr [0, 0, 5/13, 12/13] = 1
   \<and> su2sqr (su2rot [3/5, 4/5, 0, 0] [0, 0, 5/13, 12/13]) = 1"
proof -
  have h1: "su2sqr [3/5, 4/5, 0, 0] = 1" by (simp add: su2sqr_def)
  have h2: "su2sqr [0, 0, 5/13, 12/13] = 1" by (simp add: su2sqr_def)
  from su2rot_preserves_unit_norm[OF h1 h2] h1 h2 show ?thesis by simp
qed

text \<open>
  C9: \<open>su2rot\<close> and \<open>matmat\<close> write only the buffer of their first operand: every
  address outside it keeps its value, so a second operand that is a separate buffer is
  left unchanged in all its components, for \<open>matmat\<close> with \<open>dag\<close> zero and nonzero.
\<close>

theorem su2rot_matmat_frame:
  "(\<forall>a. \<not> (u1 \<le> a \<and> a < u1 + SU2LINK) \<longrightarrow> su2rot_mem m u1 u2 a = m a)
   \<and> (u1 + SU2LINK \<le> u2 \<or> u2 + SU2LINK \<le> u1 \<longrightarrow>
        mem_read (su2rot_mem m u1 u2) u2 SU2LINK = mem_read m u2 SU2LINK)
   \<and> (\<forall>a. \<not> (in1 \<le> a \<and> a < in1 + 8) \<longrightarrow> matmat_mem m in1 in2 dag a = m a)
   \<and> (in1 + 8 \<le> in2 \<or> in2 + 8 \<le> in1 \<longrightarrow>
        mem_read (matmat_mem m in1 in2 dag) in2 8 = mem_read m in2 8)"
  by (auto simp: su2rot_mem_def matmat_mem_def mem_write_outside mem_read_write_other
      length_su2rot length_matmat SU2LINK_def)

theorem su2rot_matmat_frame_witness:
  "mem_read (su2rot_mem (\<lambda>a. real a) 0 4) 4 SU2LINK = [4, 5, 6, 7]
   \<and> mem_read (matmat_mem (\<lambda>a. real a) 0 8 1) 8 8 = [8, 9, 10, 11, 12, 13, 14, 15]
   \<and> mem_read (matmat_mem (\<lambda>a. real a) 0 8 0) 8 8 = [8, 9, 10, 11, 12, 13, 14, 15]
   \<and> su2rot_mem (\<lambda>a. real a) 0 4 20 = 20"
  using su2rot_matmat_frame[of 0 "\<lambda>a. real a" 4 0 8 1]
        su2rot_matmat_frame[of 0 "\<lambda>a. real a" 4 0 8 0]
  by (simp add: SU2LINK_def mem_read_def upt_rec)

subsection \<open>Plaquettes and staples\<close>

text \<open>
  C10: the plaquette trace computed by the closed form \<open>su2trace4\<close> is twice component
  0 of the matrix that \<open>su2plaquette\<close> builds by three \<open>su2rot\<close> products after
  conjugating the two reversed legs, for every site and pair of directions.
\<close>

theorem su2ptrace_eq_su2plaquette:
  "su2ptrace l f i dir1 dir2 = 2 * su2plaquette l f i dir1 dir2 ! 0"
  unfolding su2ptrace_def su2plaquette_def su2trace4_def su2rot_def su2conj_def Let_def
  by (simp add: algebra_simps)

subsection \<open>The trivial vacuum and smearing\<close>

lemma su2trace4_id: "su2trace4 [1, 0, 0, 0] [1, 0, 0, 0] [1, 0, 0, 0] [1, 0, 0, 0] = 2"
  by (simp add: su2trace4_def)

lemma counterwise_id: "su2staple_counterwise [1, 0, 0, 0] [1, 0, 0, 0] [1, 0, 0, 0] = [1, 0, 0, 0]"
  by (simp add: su2staple_counterwise_def)

lemma clockwise_id: "su2staple_clockwise [1, 0, 0, 0] [1, 0, 0, 0] [1, 0, 0, 0] = [1, 0, 0, 0]"
  by (simp add: su2staple_clockwise_def)

lemma vadd4: "vadd [a, b, c, d] [a', b', c', d'] = [a + a', b + b', c + c', d + d']"
  by (simp add: vadd_def)

lemma vadd3: "vadd [a, b, c] [a', b', c'] = [a + a', b + b', c + c']"
  by (simp add: vadd_def)

lemma wf_next: "wf_lattice l \<Longrightarrow> i < sites l \<Longrightarrow> d < dim l \<Longrightarrow> next_nb l i d < sites l"
  by (simp add: wf_lattice_def)

lemma wf_prev: "wf_lattice l \<Longrightarrow> i < sites l \<Longrightarrow> d < dim l \<Longrightarrow> prev_nb l i d < sites l"
  by (simp add: wf_lattice_def)

lemma staple_count:
  "fold (\<lambda>j tot. if j \<noteq> dir then vadd (vadd tot [1, 0, 0, 0]) [1, 0, 0, 0] else tot) [0..<n] [0, 0, 0, 0]
   = [2 * real (if dir < n then n - 1 else n), 0, 0, 0]"
proof (induction n)
  case 0
  show ?case by simp
next
  case (Suc n)
  consider "dir < n" | "dir = n" | "n < dir" by linarith
  then show ?case
  proof cases
    case 1
    then show ?thesis using Suc by (simp add: vadd4 of_nat_diff)
  next
    case 2
    then show ?thesis using Suc by simp
  next
    case 3
    then show ?thesis using Suc by (simp add: vadd4)
  qed
qed

lemma su2staple_wilson_id:
  assumes wf: "wf_lattice l"
    and id: "\<forall>x<sites l. \<forall>d<dim l. su2link f x d = [1, 0, 0, 0]"
    and i: "i < sites l" and dir: "dir < dim l"
  shows "su2staple_wilson l f i dir = [2 * (real (dim l) - 1), 0, 0, 0]"
proof -
  have step:
     "(\<lambda>tot. if j \<noteq> dir then
          (let u1 = su2link f (next_nb l i dir) j;
               u2 = su2link f (next_nb l i j) dir;
               u3 = su2link f i j;
               V = su2staple_counterwise u1 u2 u3;
               tot = vadd tot V;
               u1 = su2link f (prev_nb l (next_nb l i dir) j) j;
               u2 = su2link f (prev_nb l i j) dir;
               u3 = su2link f (prev_nb l i j) j;
               V = su2staple_clockwise u1 u2 u3
           in vadd tot V)
        else tot)
      = (\<lambda>tot. if j \<noteq> dir then vadd (vadd tot [1, 0, 0, 0]) [1, 0, 0, 0] else tot)"
    if "j \<in> set [0..<dim l]" for j
  proof -
    from that have j: "j < dim l" by simp
    have n1: "next_nb l i dir < sites l" and n2: "next_nb l i j < sites l"
      and p1: "prev_nb l i j < sites l"
      using wf i dir j by (simp_all add: wf_next wf_prev)
    have p2: "prev_nb l (next_nb l i dir) j < sites l" using wf n1 j by (simp add: wf_prev)
    show ?thesis
      using id i dir j n1 n2 p1 p2 by (cases "j = dir") (simp_all add: Let_def counterwise_id clockwise_id)
  qed
  have "su2staple_wilson l f i dir
        = fold (\<lambda>j tot. if j \<noteq> dir then vadd (vadd tot [1, 0, 0, 0]) [1, 0, 0, 0] else tot)
            [0..<dim l] [0, 0, 0, 0]"
    unfolding su2staple_wilson_def by (rule fold_cong[OF refl refl step])
  also have "\<dots> = [2 * real (dim l - 1), 0, 0, 0]" using dir by (simp add: staple_count)
  also have "\<dots> = [2 * (real (dim l) - 1), 0, 0, 0]" using dir by (simp add: of_nat_diff)
  finally show ?thesis .
qed

lemma su2ptrace_id:
  assumes wf: "wf_lattice l"
    and id: "\<forall>x<sites l. \<forall>d<dim l. su2link f x d = [1, 0, 0, 0]"
    and i: "i < sites l" and d: "dir1 < dim l" "dir2 < dim l"
  shows "su2ptrace l f i dir1 dir2 = 2"
  using assms by (simp add: su2ptrace_def Let_def wf_next su2trace4_id)

lemma less_2_cases: "d < (2::nat) \<longleftrightarrow> d = 0 \<or> d = 1" by auto
lemma less_4_cases: "i < (4::nat) \<longleftrightarrow> i = 0 \<or> i = 1 \<or> i = 2 \<or> i = 3" by auto

lemma wf_torus2: "wf_lattice torus2"
  by (auto simp: wf_lattice_def torus2_def torus2_nb_def less_2_cases less_4_cases)

text \<open>
  C4: if every SU(2) link is the identity \<open>(1, 0, 0, 0)\<close>, then \<open>su2ptrace\<close> returns exactly
  2 for every site and pair of distinct directions, and \<open>su2staple_wilson\<close> fills \<open>V\<close> with
  \<open>(2 (dim - 1), 0, 0, 0)\<close> for every site and direction.
\<close>

theorem trivial_vacuum:
  assumes "wf_lattice l"
    and "\<forall>x<sites l. \<forall>d<dim l. su2link f x d = [1, 0, 0, 0]"
    and "i < sites l"
  shows "(\<forall>dir1<dim l. \<forall>dir2<dim l. dir1 \<noteq> dir2 \<longrightarrow> su2ptrace l f i dir1 dir2 = 2)
       \<and> (\<forall>dir<dim l. su2staple_wilson l f i dir = [2 * (real (dim l) - 1), 0, 0, 0])"
  using assms by (simp add: su2ptrace_id su2staple_wilson_id)

theorem trivial_vacuum_witness:
  "su2ptrace torus2 (uniform_fields [1, 0, 0, 0] [0, 0, 1]) 0 0 1 = 2
   \<and> su2staple_wilson torus2 (uniform_fields [1, 0, 0, 0] [0, 0, 1]) 0 1 = [2, 0, 0, 0]"
proof -
  have h2: "\<forall>x<sites torus2. \<forall>d<dim torus2.
              su2link (uniform_fields [1, 0, 0, 0] [0, 0, 1]) x d = [1, 0, 0, 0]"
    by (simp add: uniform_fields_def)
  have h3: "0 < sites torus2" by (simp add: torus2_def)
  from trivial_vacuum[OF wf_torus2 h2 h3] show ?thesis by (simp add: torus2_def)
qed

lemma onedir_id:
  assumes wf: "wf_lattice l"
    and id: "\<forall>x<sites l. \<forall>d<dim l. su2link f x d = [1, 0, 0, 0]"
    and i: "i < sites l" and mu: "mu < dim l" and nu: "nu < dim l" and ne: "mu \<noteq> nu"
  shows "su2staple_wilson_onedir l f i mu nu 1 = [2, 0, 0, 0]"
proof -
  have n1: "next_nb l i mu < sites l" and n2: "next_nb l i nu < sites l"
    and p1: "prev_nb l i nu < sites l"
    using wf i mu nu by (simp_all add: wf_next wf_prev)
  have p2: "prev_nb l (next_nb l i mu) nu < sites l" using wf n1 nu by (simp add: wf_prev)
  show ?thesis
    using id i mu nu ne n1 n2 p1 p2
    by (simp add: su2staple_wilson_onedir_def Let_def counterwise_id clockwise_id su2conj_def vadd4)
qed

lemma su2rot_id: "su2rot [1, 0, 0, 0] [1, 0, 0, 0] = [1, 0, 0, 0]"
  by (simp add: su2rot_def)

lemma fold_invariant_conseq:
  "P a \<Longrightarrow> (\<And>x s. x \<in> set xs \<Longrightarrow> P s \<Longrightarrow> P (f x s)) \<Longrightarrow> (\<And>s. P s \<Longrightarrow> Q s) \<Longrightarrow> Q (fold f xs a)"
  by (induction xs arbitrary: a) auto

lemma smear_link_id:
  assumes wf: "wf_lattice l"
    and id: "\<forall>x<sites l. \<forall>d<dim l. su2link f x d = [1, 0, 0, 0]"
    and i: "i < sites l" and dir: "dir < dim l"
  shows "smear_link l f smear_dir i dir = Some [1, 0, 0, 0]"
proof -
  have n: "next_nb l i dir < sites l" using wf i dir by (simp add: wf_next)
  have l0: "su2link f i dir = [1, 0, 0, 0]" and l1: "su2link f (next_nb l i dir) dir = [1, 0, 0, 0]"
    using id i dir n by auto
  show ?thesis
    unfolding smear_link_def Let_def l0 l1
  proof (rule fold_invariant_conseq[
      where P = "\<lambda>(res, v2, paths :: int).
              res = [real_of_int paths, 0, 0, 0] \<and> v2 = [real_of_int paths, 0, 0, 0] \<and> 1 \<le> paths"],
      goal_cases)
    case 1
    show ?case by simp
  next
    case (2 j s)
    then have jd: "j < dim l" by simp
    show ?case
    proof (cases "j \<noteq> dir \<and> smear_dir j \<noteq> 0")
      case True
      then have "su2staple_wilson_onedir l f i dir j 1 = [2, 0, 0, 0]"
        and "su2staple_wilson_onedir l f (next_nb l i dir) dir j 1 = [2, 0, 0, 0]"
        using onedir_id[OF wf id i dir jd] onedir_id[OF wf id n dir jd] by auto
      then show ?thesis using 2(2) True by (cases s) (auto simp: vadd4)
    next
      case False
      then show ?thesis using 2(2) by (cases s) auto
    qed
  next
    case (3 s)
    then show ?case
      by (cases s) (auto simp: vdiv_def su2rot_id su2sqr_def fsqrt_def)
  qed
qed

lemma smear_triplet_zero:
  assumes wf: "wf_lattice l"
    and z: "\<forall>x<sites l. su2triplet f x = [0, 0, 0]"
    and i: "i < sites l"
  shows "smear_triplet l f smear_dir i = Some [0, 0, 0]"
  unfolding smear_triplet_def Let_def
proof (rule fold_invariant_conseq[
      where P = "\<lambda>(cov :: real list, k :: int). cov = [0, 0, 0] \<and> 1 \<le> k"
        and Q = "\<lambda>s. (case s of (cov, k) \<Rightarrow> vdiv (vadd (su2triplet f i) cov) (real_of_int k))
                     = Some [0, 0, 0]"], goal_cases)
  case 1
  show ?case by simp
next
  case (2 d s)
  then have d: "d < dim l" by simp
  have zn: "su2triplet f (next_nb l i d) = [0, 0, 0]"
    and zp: "su2triplet f (prev_nb l i d) = [0, 0, 0]"
    using wf z i d by (simp_all add: wf_next wf_prev)
  from 2(2) show ?case using zn zp by (cases s) auto
next
  case (3 s)
  then show ?case using z i by (cases s) (auto simp: vadd3 vdiv_def)
qed

text \<open>
  C8: on a configuration whose SU(2) links are all the identity, \<open>smear_link\<close> gives the
  identity link at every site and direction; on a configuration whose triplet field is
  zero at every site, \<open>smear_triplet\<close> gives the zero triplet, whatever the smearing
  directions are.
\<close>

theorem smearing_trivial:
  "(wf_lattice l \<and> (\<forall>x<sites l. \<forall>d<dim l. su2link f x d = [1, 0, 0, 0])
      \<and> i < sites l \<and> dir < dim l
      \<longrightarrow> smear_link l f smear_dir i dir = Some [1, 0, 0, 0])
   \<and> (wf_lattice l \<and> (\<forall>x<sites l. su2triplet g x = [0, 0, 0]) \<and> i < sites l
      \<longrightarrow> smear_triplet l g smear_dir i = Some [0, 0, 0])"
  using smear_link_id[of l f i dir smear_dir] smear_triplet_zero[of l g i smear_dir] by blast

theorem smearing_trivial_witness:
  "smear_link torus2 (uniform_fields [1, 0, 0, 0] [0, 0, 0]) (\<lambda>j. 1) 0 0 = Some [1, 0, 0, 0]
   \<and> smear_triplet torus2 (uniform_fields [1, 0, 0, 0] [0, 0, 0]) (\<lambda>j. 1) 0 = Some [0, 0, 0]"
  using smearing_trivial[of torus2 "uniform_fields [1, 0, 0, 0] [0, 0, 0]" 0 0 "\<lambda>j. 1"
      "uniform_fields [1, 0, 0, 0] [0, 0, 0]"] wf_torus2
  by (simp add: torus2_def uniform_fields_def)

subsection \<open>Abelian projection\<close>

lemma projector_some:
  "sqrt (a ! 0 * a ! 0 + a ! 1 * a ! 1 + a ! 2 * a ! 2) \<noteq> 0 \<Longrightarrow>
   projector a = Some [2 * a ! 0 / sqrt (a ! 0 * a ! 0 + a ! 1 * a ! 1 + a ! 2 * a ! 2),
                       2 * a ! 1 / sqrt (a ! 0 * a ! 0 + a ! 1 * a ! 1 + a ! 2 * a ! 2),
                       2 * a ! 2 / sqrt (a ! 0 * a ! 0 + a ! 1 * a ! 1 + a ! 2 * a ! 2)]"
  by (simp add: projector_def fsqrt_def fdiv_def Let_def not_less)

lemma projector_none:
  "sqrt (a ! 0 * a ! 0 + a ! 1 * a ! 1 + a ! 2 * a ! 2) = 0 \<Longrightarrow> projector a = None"
  by (simp add: projector_def fsqrt_def fdiv_def Let_def not_less)

lemma unit_len_aux:
  fixes m x y z :: real
  assumes "m \<noteq> 0" and "m * m = x * x + y * y + z * z"
  shows "(2 * x / m) * (2 * x / m) + (2 * y / m) * (2 * y / m) + (2 * z / m) * (2 * z / m) = 4"
proof -
  have "(2 * x / m) * (2 * x / m) + (2 * y / m) * (2 * y / m) + (2 * z / m) * (2 * z / m)
        = 4 * (x * x + y * y + z * z) / (m * m)"
    using assms(1) by (simp add: field_simps)
  also have "\<dots> = 4 * (m * m) / (m * m)" by (simp only: assms(2))
  also have "\<dots> = 4" using assms(1) by simp
  finally show ?thesis .
qed

lemma unit_len:
  fixes x y z :: real
  assumes "sqrt (x * x + y * y + z * z) \<noteq> 0"
  shows "(2 * x / sqrt (x * x + y * y + z * z)) * (2 * x / sqrt (x * x + y * y + z * z))
       + (2 * y / sqrt (x * x + y * y + z * z)) * (2 * y / sqrt (x * x + y * y + z * z))
       + (2 * z / sqrt (x * x + y * y + z * z)) * (2 * z / sqrt (x * x + y * y + z * z)) = 4"
proof -
  have "0 \<le> x * x + y * y + z * z" by simp
  then have "sqrt (x * x + y * y + z * z) * sqrt (x * x + y * y + z * z) = x * x + y * y + z * z"
    by simp
  with assms show ?thesis by (rule unit_len_aux)
qed

text \<open>
  C7: for a triplet \<open>a\<close> of nonzero modulus \<open>|a| = sqrt (a[0]^2 + a[1]^2 + a[2]^2)\<close>,
  \<open>projector\<close> fills \<open>proj[k] = 2 a[k] / |a|\<close>, so that the squares of the three entries
  add up to 4; for \<open>|a| = 0\<close> the division by zero is not caught and the result is no
  real number.
\<close>

theorem projector_unit_length:
  "(let m = sqrt (a ! 0 * a ! 0 + a ! 1 * a ! 1 + a ! 2 * a ! 2);
        proj = [2 * a ! 0 / m, 2 * a ! 1 / m, 2 * a ! 2 / m]
    in (m \<noteq> 0 \<longrightarrow> projector a = Some proj
                 \<and> proj ! 0 * proj ! 0 + proj ! 1 * proj ! 1 + proj ! 2 * proj ! 2 = 4)
     \<and> (m = 0 \<longrightarrow> projector a = None))"
  unfolding Let_def
  using projector_some[of a] projector_none[of a] unit_len[of "a ! 0" "a ! 1" "a ! 2"]
  by simp

theorem projector_unit_length_witness:
  "projector [0, 2, 0] = Some [0, 2, 0] \<and> projector [0, 0, 0] = None"
  using projector_unit_length[of "[0, 2, 0]"] projector_unit_length[of "[0, 0, 0]"]
  by (simp add: Let_def)

lemma projector_z: "projector [0, 0, 1] = Some [0, 0, 2]"
  by (simp add: projector_def fsqrt_def fdiv_def)

text \<open>Where both triplets point along the third axis, the projected link keeps only
  component 0 of the link, written to entries 0 and 1.\<close>

lemma project_u1_z:
  "su2triplet f i = [0, 0, 1] \<Longrightarrow> su2triplet f (next_nb p i d) = [0, 0, 1] \<Longrightarrow>
   project_u1 p f i d = Some [su2link f i d ! 0, su2link f i d ! 0, 0, 0, 0, 0, 0, 0]"
  by (simp add: project_u1_def projector_z Let_def)

text \<open>
  C5: whenever \<open>project_u1\<close> fills its buffer \<open>pro\<close> with numbers, \<open>pro[1] = pro[0]\<close>,
  \<open>pro[3] = pro[2]\<close>, \<open>pro[5] = pro[4]\<close> and \<open>pro[7] = pro[6]\<close>: the imaginary part written
  for each of the four entries is the real part written for it.
\<close>

theorem project_u1_imag_eq_real:
  "project_u1 p f i dir = Some pro \<Longrightarrow>
   pro ! 1 = pro ! 0 \<and> pro ! 3 = pro ! 2 \<and> pro ! 5 = pro ! 4 \<and> pro ! 7 = pro ! 6"
  unfolding project_u1_def Let_def by (auto split: option.splits)

theorem project_u1_imag_eq_real_witness:
  "project_u1 (torus2_params 1) (uniform_fields [1, 0, 0, 0] [0, 0, 1]) 0 0
     = Some [1, 1, 0, 0, 0, 0, 0, 0]
   \<and> [1, 1, 0, 0, 0, 0, 0, 0 :: real] ! 1 = [1, 1, 0, 0, 0, 0, 0, 0] ! 0"
proof -
  have h: "project_u1 (torus2_params 1) (uniform_fields [1, 0, 0, 0] [0, 0, 1]) 0 0
             = Some [1, 1, 0, 0, 0, 0, 0, 0]"
    by (simp add: project_u1_z uniform_fields_def)
  from project_u1_imag_eq_real[OF h] h show ?thesis by simp
qed

text \<open>Every projected link is \<open>1 + i\<close> times a real matrix.\<close>

lemma project_u1_shape:
  assumes "project_u1 p f i dir = Some pro"
  shows "\<exists>a b c d. pro = [a, a, b, b, c, c, d, d]"
  using assms unfolding project_u1_def Let_def by (auto split: option.splits)

text \<open>For four such matrices the product \<open>u1 u2 u3\<^sup>+ u4\<^sup>+\<close> has a real trace, and the
  reversed product \<open>u4 u3 u2\<^sup>+ u1\<^sup>+\<close> has the same trace.\<close>

lemma plaquette_product_imag:
  "matmat (matmat (matmat [x1, x1, y1, y1, z1, z1, w1, w1] [x2, x2, y2, y2, z2, z2, w2, w2] 0)
                       [x3, x3, y3, y3, z3, z3, w3, w3] 1) [x4, x4, y4, y4, z4, z4, w4, w4] 1 ! 1
   + matmat (matmat (matmat [x1, x1, y1, y1, z1, z1, w1, w1] [x2, x2, y2, y2, z2, z2, w2, w2] 0)
                       [x3, x3, y3, y3, z3, z3, w3, w3] 1) [x4, x4, y4, y4, z4, z4, w4, w4] 1 ! 7 = 0"
  by (simp add: matmat_def Let_def algebra_simps)

lemma plaquette_product_real:
  "matmat (matmat (matmat [x1, x1, y1, y1, z1, z1, w1, w1] [x2, x2, y2, y2, z2, z2, w2, w2] 0)
                       [x3, x3, y3, y3, z3, z3, w3, w3] 1) [x4, x4, y4, y4, z4, z4, w4, w4] 1 ! 0
   + matmat (matmat (matmat [x1, x1, y1, y1, z1, z1, w1, w1] [x2, x2, y2, y2, z2, z2, w2, w2] 0)
                       [x3, x3, y3, y3, z3, z3, w3, w3] 1) [x4, x4, y4, y4, z4, z4, w4, w4] 1 ! 6
   = matmat (matmat (matmat [x4, x4, y4, y4, z4, z4, w4, w4] [x3, x3, y3, y3, z3, z3, w3, w3] 0)
                       [x2, x2, y2, y2, z2, z2, w2, w2] 1) [x1, x1, y1, y1, z1, z1, w1, w1] 1 ! 0
   + matmat (matmat (matmat [x4, x4, y4, y4, z4, z4, w4, w4] [x3, x3, y3, y3, z3, z3, w3, w3] 0)
                       [x2, x2, y2, y2, z2, z2, w2, w2] 1) [x1, x1, y1, y1, z1, z1, w1, w1] 1 ! 6"
  by (simp add: matmat_def Let_def algebra_simps)

text \<open>So the projected plaquette angle is the same in both orders of the directions,
  for every configuration.\<close>

lemma alpha_proj_symmetric: "alpha_proj p f i dir1 dir2 = alpha_proj p f i dir2 dir1"
proof (cases "project_u1 p f i dir1 = None \<or> project_u1 p f (next_nb p i dir1) dir2 = None
      \<or> project_u1 p f (next_nb p i dir2) dir1 = None \<or> project_u1 p f i dir2 = None")
  case True
  then show ?thesis unfolding alpha_proj_def by (auto split: option.splits)
next
  case False
  then obtain u1 u2 u3 u4 where u:
    "project_u1 p f i dir1 = Some u1" "project_u1 p f (next_nb p i dir1) dir2 = Some u2"
    "project_u1 p f (next_nb p i dir2) dir1 = Some u3" "project_u1 p f i dir2 = Some u4"
    by auto
  from u(1) obtain x1 y1 z1 w1 where s1: "u1 = [x1, x1, y1, y1, z1, z1, w1, w1]"
    using project_u1_shape by blast
  from u(2) obtain x2 y2 z2 w2 where s2: "u2 = [x2, x2, y2, y2, z2, z2, w2, w2]"
    using project_u1_shape by blast
  from u(3) obtain x3 y3 z3 w3 where s3: "u3 = [x3, x3, y3, y3, z3, z3, w3, w3]"
    using project_u1_shape by blast
  from u(4) obtain x4 y4 z4 w4 where s4: "u4 = [x4, x4, y4, y4, z4, z4, w4, w4]"
    using project_u1_shape by blast
  show ?thesis
    unfolding alpha_proj_def u option.case s1 s2 s3 s4 Let_def plaquette_product_imag
    by (simp only: plaquette_product_real[of x1 y1 z1 w1 x2 y2 z2 w2 x3 y3 z3 w3 x4 y4 z4 w4])
qed

text \<open>
  C3: \<open>alpha_proj(p, f, i, d1, d2) = - alpha_proj(p, f, i, d2, d1)\<close> for distinct directions
  and triplets of nonzero modulus.  The code does not do this: on the \<open>2 \<times> 2\<close> torus with
  \<open>betasu2 = 1\<close>, every triplet \<open>(0, 0, 1)\<close> and every link the identity but
  \<open>(-1, 0, 0, 0)\<close> at site 0 in direction 0, both orders give \<open>pi\<close>.
\<close>

theorem alpha_proj_same_in_both_orders:
  "alpha_proj (torus2_params 1)
     (set_link (uniform_fields [1, 0, 0, 0] [0, 0, 1]) 0 0 [-1, 0, 0, 0]) 0 0 1 = Some pi
   \<and> alpha_proj (torus2_params 1)
     (set_link (uniform_fields [1, 0, 0, 0] [0, 0, 1]) 0 0 [-1, 0, 0, 0]) 0 1 0 = Some pi"
  by (simp add: alpha_proj_def project_u1_z uniform_fields_def set_link_def torus2_params_def
      torus2_nb_def matmat_def atan2_def fsqrt_def Let_def)

subsection \<open>Magnetic field\<close>

lemma orthogonal_pairs_set:
  "set (orthogonal_pairs n dir) = {(d1, d2). d1 < d2 \<and> d2 < n \<and> d1 \<noteq> dir \<and> d2 \<noteq> dir}"
  by (auto simp: orthogonal_pairs_def)

lemma orthogonal_pairs_distinct: "distinct (orthogonal_pairs n dir)"
  by (simp add: orthogonal_pairs_def distinct_product)

lemma oplus_Some: "oplus (Some a) (Some b) = Some (a + b)" by (simp add: oplus_def)
lemma ominus_Some: "ominus (Some a) (Some b) = Some (a - b)" by (simp add: ominus_def)

lemma magfield_inner:
  assumes "\<forall>d2\<in>set xs. d2 \<noteq> dir \<longrightarrow> g d2 \<noteq> None"
  shows "fold (\<lambda>d2 res. if d2 = dir then res
              else (let alpha = g d2
                    in if d1 > dir then oplus res alpha
                       else if d2 > dir then ominus res alpha
                       else oplus res alpha)) xs (Some r)
         = Some (r + (\<Sum>d2\<leftarrow>xs. if d2 = dir then 0
                       else (if d1 > dir then 1 else if d2 > dir then - 1 else 1) * the (g d2)))"
  using assms
proof (induction xs arbitrary: r)
  case Nil
  show ?case by simp
next
  case (Cons x xs)
  show ?case
  proof (cases "x = dir")
    case True
    then show ?thesis using Cons by simp
  next
    case False
    with Cons.prems obtain v where v: "g x = Some v" by auto
    show ?thesis using False v Cons by (simp add: Let_def oplus_Some ominus_Some algebra_simps)
  qed
qed

lemma magfield_outer:
  assumes "\<And>d1 r'. d1 \<in> set xs \<Longrightarrow> d1 \<noteq> dir \<Longrightarrow> F d1 (Some r') = Some (r' + G d1)"
  shows "fold (\<lambda>d1 res. if d1 = dir then res else F d1 res) xs (Some r)
         = Some (r + (\<Sum>d1\<leftarrow>xs. if d1 = dir then 0 else G d1))"
  using assms
proof (induction xs arbitrary: r)
  case Nil
  show ?case by simp
next
  case (Cons x xs)
  show ?case by (cases "x = dir") (simp_all add: Cons algebra_simps)
qed

lemma magfield_nested:
  assumes "\<forall>d1 d2. d1 < d2 \<and> d2 < dim p \<and> d1 \<noteq> dir \<and> d2 \<noteq> dir \<longrightarrow> alpha_proj p f i d1 d2 \<noteq> None"
  shows "magfield p f i dir = Some (\<Sum>d1\<leftarrow>[0..<dim p]. if d1 = dir then 0 else
            (\<Sum>d2\<leftarrow>[d1 + 1..<dim p]. if d2 = dir then 0
               else (if d1 > dir then 1 else if d2 > dir then - 1 else 1) * the (alpha_proj p f i d1 d2)))"
proof -
  have inner: "fold (\<lambda>d2 res. if d2 = dir then res
              else (let alpha = alpha_proj p f i d1 d2
                    in if d1 > dir then oplus res alpha
                       else if d2 > dir then ominus res alpha
                       else oplus res alpha)) [d1 + 1..<dim p] (Some r')
         = Some (r' + (\<Sum>d2\<leftarrow>[d1 + 1..<dim p]. if d2 = dir then 0
                       else (if d1 > dir then 1 else if d2 > dir then - 1 else 1) * the (alpha_proj p f i d1 d2)))"
    if "d1 \<in> set [0..<dim p]" "d1 \<noteq> dir" for d1 r'
    using that assms by (intro magfield_inner) auto
  show ?thesis
    unfolding magfield_def
    using magfield_outer[where r = 0 and xs = "[0..<dim p]" and dir = dir, OF inner]
    by simp
qed

lemma nested_to_pairs:
  fixes h :: "nat \<Rightarrow> nat \<Rightarrow> real"
  shows "(\<Sum>d1\<leftarrow>[0..<n]. if d1 = dir then 0 else (\<Sum>d2\<leftarrow>[d1 + 1..<n]. if d2 = dir then 0 else h d1 d2))
       = (\<Sum>(d1, d2)\<leftarrow>orthogonal_pairs n dir. h d1 d2)"
proof -
  let ?T = "Sigma {0..<n} (\<lambda>d1. {d1 + 1..<n})"
  let ?S = "{(d1, d2). d1 < d2 \<and> d2 < n \<and> d1 \<noteq> dir \<and> d2 \<noteq> dir}"
  let ?k = "\<lambda>(d1, d2). if d1 = dir \<or> d2 = dir then 0 else h d1 d2"
  have "(\<Sum>d1\<leftarrow>[0..<n]. if d1 = dir then 0 else (\<Sum>d2\<leftarrow>[d1 + 1..<n]. if d2 = dir then 0 else h d1 d2))
        = (\<Sum>d1\<in>{0..<n}. \<Sum>d2\<in>{d1 + 1..<n}. ?k (d1, d2))"
    unfolding interv_sum_list_conv_sum_set_nat
  proof (rule sum.cong)
    show "set [0..<n] = {0..<n}" by simp
  next
    fix d1
    show "(if d1 = dir then 0 else \<Sum>d2\<in>set [d1 + 1..<n]. if d2 = dir then 0 else h d1 d2)
          = (\<Sum>d2\<in>{d1 + 1..<n}. ?k (d1, d2))"
      by (cases "d1 = dir") simp_all
  qed
  also have "\<dots> = sum ?k ?T" by (simp add: sum.Sigma)
  also have "\<dots> = sum ?k ?S" by (rule sum.mono_neutral_right) auto
  also have "\<dots> = (\<Sum>x\<in>?S. case x of (d1, d2) \<Rightarrow> h d1 d2)" by (rule sum.cong) auto
  also have "\<dots> = (\<Sum>(d1, d2)\<leftarrow>orthogonal_pairs n dir. h d1 d2)"
    using sum_list_distinct_conv_sum_set[OF orthogonal_pairs_distinct[of n dir], of "\<lambda>(d1, d2). h d1 d2"]
    by (simp add: orthogonal_pairs_set)
  finally show ?thesis .
qed

lemma sign_cases:
  "d1 < d2 \<Longrightarrow> d1 \<noteq> dir \<Longrightarrow> d2 \<noteq> dir \<Longrightarrow>
   (if d1 > dir then 1 else if d2 > dir then - 1 else 1) = levi_civita_sign dir d1 d2"
  by (auto simp: levi_civita_sign_def)

lemma less_3_cases: "d < (3::nat) \<longleftrightarrow> d = 0 \<or> d = 1 \<or> d = 2" by auto

lemma alpha_proj_torus3:
  "alpha_proj (torus3_params 1)
     (set_link (uniform_fields [1, 0, 0, 0] [0, 0, 1]) 0 0 [-1, 0, 0, 0]) 0 0 2 = Some pi"
  by (simp add: alpha_proj_def project_u1_z uniform_fields_def set_link_def torus3_params_def
      torus3_nb_def matmat_def atan2_def fsqrt_def Let_def)

lemma orthogonal_pairs_3_1: "orthogonal_pairs 3 (Suc 0) = [(0, 2)]"
  by (simp add: orthogonal_pairs_def upt_rec)

text \<open>
  C6: \<open>magfield(p, f, i, dir)\<close> is the sum, over the pairs \<open>d1 < d2\<close> of directions other
  than \<open>dir\<close>, of \<open>alpha_proj(p, f, i, d1, d2)\<close> with the sign \<open>+\<close> for \<open>dir < d1 < d2\<close>,
  \<open>-\<close> for \<open>d1 < dir < d2\<close> and \<open>+\<close> for \<open>d1 < d2 < dir\<close>; each pair is visited once
  (\<open>orthogonal_pairs_set\<close>, \<open>orthogonal_pairs_distinct\<close>) and there is no factor 2.
\<close>

theorem magfield_levi_civita_sum:
  assumes "\<forall>d1 d2. d1 < d2 \<and> d2 < dim p \<and> d1 \<noteq> dir \<and> d2 \<noteq> dir \<longrightarrow> alpha_proj p f i d1 d2 \<noteq> None"
  shows "magfield p f i dir = Some (magnetic_field_component p f i dir)"
proof -
  have "(\<Sum>(d1, d2)\<leftarrow>orthogonal_pairs (dim p) dir.
            (if d1 > dir then 1 else if d2 > dir then - 1 else 1) * the (alpha_proj p f i d1 d2))
      = (\<Sum>(d1, d2)\<leftarrow>orthogonal_pairs (dim p) dir.
            levi_civita_sign dir d1 d2 * the (alpha_proj p f i d1 d2))"
    by (rule arg_cong[where f = sum_list], rule map_cong[OF refl])
       (auto simp: orthogonal_pairs_set sign_cases)
  then show ?thesis
    unfolding magnetic_field_component_def
    using magfield_nested[OF assms]
      nested_to_pairs[where n = "dim p" and dir = dir and h = "\<lambda>d1 d2. (if d1 > dir then 1 else if d2 > dir then - 1 else 1) * the (alpha_proj p f i d1 d2)"]
    by simp
qed

theorem magfield_levi_civita_sum_witness:
  "magfield (torus3_params 1)
     (set_link (uniform_fields [1, 0, 0, 0] [0, 0, 1]) 0 0 [-1, 0, 0, 0]) 0 1 = Some (- pi)"
proof -
  let ?p = "torus3_params 1"
  let ?f = "set_link (uniform_fields [1, 0, 0, 0] [0, 0, 1]) 0 0 [-1, 0, 0, 0]"
  have h: "\<forall>d1 d2. d1 < d2 \<and> d2 < dim ?p \<and> d1 \<noteq> 1 \<and> d2 \<noteq> 1 \<longrightarrow> alpha_proj ?p ?f 0 d1 d2 \<noteq> None"
  proof (intro allI impI)
    fix d1 d2 :: nat
    assume a: "d1 < d2 \<and> d2 < dim ?p \<and> d1 \<noteq> 1 \<and> d2 \<noteq> 1"
    have d: "dim ?p = 3" by (simp add: torus3_params_def)
    from a d have "d1 = 0 \<and> d2 = 2" by auto
    then show "alpha_proj ?p ?f 0 d1 d2 \<noteq> None" using alpha_proj_torus3 by simp
  qed
  have "dim ?p = 3" by (simp add: torus3_params_def)
  then have "magnetic_field_component ?p ?f 0 1 = - pi"
    by (simp add: magnetic_field_component_def orthogonal_pairs_3_1 levi_civita_sign_def
        alpha_proj_torus3)
  with magfield_levi_civita_sum[OF h] show ?thesis by simp
qed

subsection \<open>Locality of a link update\<close>

lemma su2link_set_link:
  "su2link (set_link f i dir U) x d = (if x = i \<and> d = dir then U else su2link f x d)"
  by (simp add: set_link_def)

lemma other_fields_set_link:
  "u1link (set_link f i dir U) = u1link f"
  "su2doublet (set_link f i dir U) = su2doublet f"
  "doublet2 (set_link f i dir U) = doublet2 f"
  "su2triplet (set_link f i dir U) = su2triplet f"
  "singlet (set_link f i dir U) = singlet f"
  by (simp_all add: set_link_def)

lemma su2trace4_sym: "su2trace4 u1 u2 u3 u4 = su2trace4 u4 u3 u2 u1"
  unfolding su2trace4_def by (simp add: algebra_simps)

lemma su2ptrace_sym: "su2ptrace l f x a b = su2ptrace l f x b a"
  unfolding su2ptrace_def Let_def by (rule su2trace4_sym)

lemma su2ptrace_unchanged:
  assumes "\<not> (x = i \<and> a = dir)" "\<not> (next_nb l x a = i \<and> b = dir)"
    "\<not> (next_nb l x b = i \<and> a = dir)" "\<not> (x = i \<and> b = dir)"
  shows "su2ptrace l (set_link f i dir U) x a b = su2ptrace l f x a b"
  using assms unfolding su2ptrace_def Let_def su2link_set_link by auto

lemma fold_plus_sum_list:
  fixes g :: "'a \<Rightarrow> real"
  shows "fold (\<lambda>x acc. acc + g x) xs a = a + sum_list (map g xs)"
  by (induction xs arbitrary: a) (simp_all add: algebra_simps)

lemma fold_minus_sum_list:
  fixes g :: "'a \<Rightarrow> real"
  shows "fold (\<lambda>x acc. acc - g x) xs a = a - sum_list (map g xs)"
  by (induction xs arbitrary: a) (simp_all add: algebra_simps)

lemma fold_plus_upt:
  fixes g :: "nat \<Rightarrow> real"
  shows "fold (\<lambda>x acc. acc + g x) [0..<n] a = a + sum g {0..<n}"
  by (simp add: fold_plus_sum_list interv_sum_list_conv_sum_set_nat)

lemma local_su2wilson_sum:
  "local_su2wilson l f p x
   = betasu2 p * (\<Sum>d1\<in>{0..<dim l}. \<Sum>d2\<in>{0..<d1}. (1 - 0.5 * su2ptrace l f x d2 d1))"
proof -
  have inner: "(\<lambda>res. fold (\<lambda>dir2 res. res + (1 - 0.5 * su2ptrace l f x dir2 dir1)) [0..<dir1] res)
        = (\<lambda>res. res + (\<Sum>d2\<in>{0..<dir1}. (1 - 0.5 * su2ptrace l f x d2 dir1)))" for dir1
    by (rule ext) (rule fold_plus_upt)
  show ?thesis
    unfolding local_su2wilson_def Let_def inner by (simp add: fold_plus_upt)
qed

lemma pair_sum_dir:
  fixes g :: "nat \<Rightarrow> nat \<Rightarrow> real"
  assumes dir: "dir < n"
    and zero: "\<And>a b. a \<noteq> dir \<Longrightarrow> b \<noteq> dir \<Longrightarrow> g a b = 0"
    and sym: "\<And>a b. g a b = g b a"
  shows "(\<Sum>d1\<in>{0..<n}. \<Sum>d2\<in>{0..<d1}. g d2 d1) = (\<Sum>b\<in>{0..<n} - {dir}. g dir b)"
proof -
  have inner: "(\<Sum>d2\<in>{0..<d1}. g d2 d1)
      = (if d1 = dir then (\<Sum>b\<in>{0..<dir}. g dir b) else if dir < d1 then g dir d1 else 0)" for d1
  proof (cases "d1 = dir")
    case True
    then show ?thesis by (simp add: sym[of _ dir])
  next
    case False
    have "(\<Sum>d2\<in>{0..<d1}. g d2 d1) = (\<Sum>d2\<in>{0..<d1}. if d2 = dir then g dir d1 else 0)"
      by (rule sum.cong) (auto simp: zero False)
    also have "\<dots> = (if dir < d1 then g dir d1 else 0)" by (simp add: sum.delta)
    finally show ?thesis using False by simp
  qed
  have split: "{0..<n} = insert dir ({0..<dir} \<union> {dir + 1..<n})" using dir by auto
  have "(\<Sum>d1\<in>{0..<n}. \<Sum>d2\<in>{0..<d1}. g d2 d1)
      = (\<Sum>d1\<in>{0..<n}. if d1 = dir then (\<Sum>b\<in>{0..<dir}. g dir b) else if dir < d1 then g dir d1 else 0)"
    by (simp add: inner)
  also have "\<dots> = (\<Sum>b\<in>{0..<dir}. g dir b)
        + (\<Sum>d1\<in>{0..<dir} \<union> {dir + 1..<n}. if dir < d1 then g dir d1 else 0)"
    unfolding split by (subst sum.insert) (auto intro!: sum.cong)
  also have "(\<Sum>d1\<in>{0..<dir} \<union> {dir + 1..<n}. if dir < d1 then g dir d1 else 0)
        = (\<Sum>d1\<in>{dir + 1..<n}. g dir d1)"
    by (subst sum.union_disjoint) (auto intro!: sum.cong)
  also have "(\<Sum>b\<in>{0..<dir}. g dir b) + (\<Sum>d1\<in>{dir + 1..<n}. g dir d1)
        = (\<Sum>b\<in>{0..<dir} \<union> {dir + 1..<n}. g dir b)"
    by (subst sum.union_disjoint) auto
  also have "{0..<dir} \<union> {dir + 1..<n} = {0..<n} - {dir}" using dir by auto
  finally show ?thesis .
qed

lemma local_su2wilson_diff:
  assumes dir: "dir < dim l"
  shows "local_su2wilson l (set_link f i dir U) p x - local_su2wilson l f p x
       = betasu2 p * (\<Sum>b\<in>{0..<dim l} - {dir}.
           - 0.5 * (su2ptrace l (set_link f i dir U) x dir b - su2ptrace l f x dir b))"
proof -
  let ?f' = "set_link f i dir U"
  let ?g = "\<lambda>a b. - 0.5 * (su2ptrace l ?f' x a b - su2ptrace l f x a b)"
  have "local_su2wilson l ?f' p x - local_su2wilson l f p x
      = betasu2 p * (\<Sum>d1\<in>{0..<dim l}. \<Sum>d2\<in>{0..<d1}. ?g d2 d1)"
    unfolding local_su2wilson_sum
    by (simp add: algebra_simps sum_subtractf sum_distrib_left sum_negf)
  also have "(\<Sum>d1\<in>{0..<dim l}. \<Sum>d2\<in>{0..<d1}. ?g d2 d1) = (\<Sum>b\<in>{0..<dim l} - {dir}. ?g dir b)"
  proof (rule pair_sum_dir[OF dir])
    fix a b assume "a \<noteq> dir" "b \<noteq> dir"
    then show "?g a b = 0" by (simp add: su2ptrace_unchanged)
  next
    fix a b show "?g a b = ?g b a" by (simp add: su2ptrace_sym[of l _ x a b])
  qed
  finally show ?thesis .
qed

lemma fold_if_plus_upt:
  fixes g :: "nat \<Rightarrow> real"
  shows "fold (\<lambda>d tot. if d \<noteq> dir then tot + g d else tot) [0..<n] a = a + sum g ({0..<n} - {dir})"
proof -
  have "fold (\<lambda>d tot. if d \<noteq> dir then tot + g d else tot) [0..<n] a
        = fold (\<lambda>d tot. tot + (if d \<noteq> dir then g d else 0)) [0..<n] a"
    by (rule fold_cong) auto
  also have "\<dots> = a + (\<Sum>d\<in>{0..<n}. if d \<noteq> dir then g d else 0)" by (rule fold_plus_upt)
  also have "(\<Sum>d\<in>{0..<n}. if d \<noteq> dir then g d else 0) = sum g ({0..<n} - {dir})"
    by (rule sum.mono_neutral_cong_right) auto
  finally show ?thesis .
qed

lemma localact_su2link_sum:
  "localact_su2link cfg l f p i dir
   = (\<Sum>b\<in>{0..<dim l} - {dir}.
        (1 - 0.5 * su2ptrace l f i dir b) + (1 - 0.5 * su2ptrace l f (prev_nb l i b) dir b)) * betasu2 p
     + (if HIGGS cfg then hopping_doublet_forward cfg l f p (su2doublet f) i dir else 0)
     + (if HIGGS2 cfg then hopping_doublet_forward cfg l f p (doublet2 f) i dir else 0)
     + (if TRIPLET cfg then hopping_triplet_forward l f p i dir else 0)"
proof -
  have "fold (\<lambda>dir2 tot.
                 if dir2 \<noteq> dir then
                   (let tot = tot + (1 - 0.5 * su2ptrace l f i dir dir2)
                    in tot + (1 - 0.5 * su2ptrace l f (prev_nb l i dir2) dir dir2))
                 else tot) [0..<dim l] 0
        = fold (\<lambda>b tot. if b \<noteq> dir then
                  tot + ((1 - 0.5 * su2ptrace l f i dir b) + (1 - 0.5 * su2ptrace l f (prev_nb l i b) dir b))
                else tot) [0..<dim l] 0"
    by (rule fold_cong) (auto simp: Let_def)
  then have loop: "fold (\<lambda>dir2 tot.
                 if dir2 \<noteq> dir then
                   (let tot = tot + (1 - 0.5 * su2ptrace l f i dir dir2)
                    in tot + (1 - 0.5 * su2ptrace l f (prev_nb l i dir2) dir dir2))
                 else tot) [0..<dim l] 0
        = (\<Sum>b\<in>{0..<dim l} - {dir}.
            (1 - 0.5 * su2ptrace l f i dir b) + (1 - 0.5 * su2ptrace l f (prev_nb l i b) dir b))"
    by (simp only: fold_if_plus_upt add_0_left)
  show ?thesis
    by (simp only: localact_su2link_def loop) (simp add: Let_def)
qed

lemma hopping_doublet_forward_unchanged:
  "\<not> (x = i \<and> d = dir) \<Longrightarrow>
   hopping_doublet_forward cfg l (set_link f i dir U) p phi x d = hopping_doublet_forward cfg l f p phi x d"
  unfolding hopping_doublet_forward_def Let_def su2link_set_link other_fields_set_link by auto

lemma hopping_triplet_forward_unchanged:
  "\<not> (x = i \<and> d = dir) \<Longrightarrow>
   hopping_triplet_forward l (set_link f i dir U) p x d = hopping_triplet_forward l f p x d"
  unfolding hopping_triplet_forward_def Let_def su2link_set_link other_fields_set_link by auto

lemma sum_single_change:
  fixes g h :: "nat \<Rightarrow> real"
  assumes "dir < n" and "\<And>d. d \<noteq> dir \<Longrightarrow> g d = h d"
  shows "sum g {0..<n} - sum h {0..<n} = g dir - h dir"
proof -
  have "sum g {0..<n} - sum h {0..<n} = (\<Sum>d\<in>{0..<n}. g d - h d)" by (simp add: sum_subtractf)
  also have "\<dots> = (\<Sum>d\<in>{0..<n}. if d = dir then g dir - h dir else 0)"
    by (rule sum.cong) (auto simp: assms(2))
  also have "\<dots> = g dir - h dir" using assms(1) by (simp add: sum.delta)
  finally show ?thesis .
qed

lemma covariant_doublet_sum:
  "covariant_doublet cfg l f p phi x
   = (\<Sum>d\<in>{0..<dim l}. 2 * doubletsq (phi x) + hopping_doublet_forward cfg l f p phi x d)"
  unfolding covariant_doublet_def Let_def by (simp add: fold_plus_upt)

lemma covariant_triplet_sum:
  "covariant_triplet l f p x
   = (\<Sum>d\<in>{0..<dim l}. 2 * tripletsq (su2triplet f x) + hopping_triplet_forward l f p x d)"
  unfolding covariant_triplet_def Let_def by (simp add: fold_plus_upt)

lemma covariant_doublet_diff:
  assumes "dir < dim l"
  shows "covariant_doublet cfg l (set_link f i dir U) p phi x - covariant_doublet cfg l f p phi x
       = (if x = i then hopping_doublet_forward cfg l (set_link f i dir U) p phi i dir
                        - hopping_doublet_forward cfg l f p phi i dir else 0)"
proof (cases "x = i")
  case True
  show ?thesis
    unfolding covariant_doublet_sum True
    by (subst sum_single_change[OF assms]) (simp_all add: hopping_doublet_forward_unchanged)
next
  case False
  then show ?thesis
    unfolding covariant_doublet_sum by (simp add: hopping_doublet_forward_unchanged)
qed

lemma covariant_triplet_diff:
  assumes "dir < dim l"
  shows "covariant_triplet l (set_link f i dir U) p x - covariant_triplet l f p x
       = (if x = i then hopping_triplet_forward l (set_link f i dir U) p i dir
                        - hopping_triplet_forward l f p i dir else 0)"
proof (cases "x = i")
  case True
  show ?thesis
    unfolding covariant_triplet_sum True other_fields_set_link
    by (subst sum_single_change[OF assms]) (simp_all add: hopping_triplet_forward_unchanged)
next
  case False
  then show ?thesis
    unfolding covariant_triplet_sum other_fields_set_link
    by (simp add: hopping_triplet_forward_unchanged)
qed

lemma local_u1wilson_set_link: "local_u1wilson l (set_link f i dir U) p x = local_u1wilson l f p x"
  unfolding local_u1wilson_def u1ptrace_def other_fields_set_link ..

lemma higgspotential_set_link: "higgspotential cfg (set_link f i dir U) p x = higgspotential cfg f p x"
  unfolding higgspotential_def other_fields_set_link ..

lemma upt_0_2: "[0..<2] = [0, 1]" by (simp add: upt_rec)

text \<open>What \<open>action_local\<close> adds to the gauge action and to the terms without links.\<close>

lemma action_local_split:
  assumes "flags_consistent cfg"
  shows "action_local cfg l f p x
       = local_su2wilson l f p x
         + (if U1 cfg then local_u1wilson l f p x else 0)
         + higgspotential cfg f p x
         + (if HIGGS cfg then covariant_doublet cfg l f p (su2doublet f) x else 0)
         + (if HIGGS2 cfg then covariant_doublet cfg l f p (doublet2 f) x else 0)
         + (if TRIPLET cfg then covariant_triplet l f p x else 0)
         + (if SINGLET cfg then real (dim l) * (singlet f x ! 0) * (singlet f x ! 0)
              - (\<Sum>d\<leftarrow>[0..<dim l]. singlet f x ! 0 * singlet f (next_nb l x d) ! 0) else 0)"
proof -
  consider (none) "\<not> HIGGS cfg" "\<not> HIGGS2 cfg" "NHIGGS cfg = 0"
    | (one) "HIGGS cfg" "\<not> HIGGS2 cfg" "NHIGGS cfg = 1"
    | (two) "HIGGS cfg" "HIGGS2 cfg" "NHIGGS cfg = 2"
    using assms by (auto simp: flags_consistent_def)
  then show ?thesis
  proof cases
    case none
    then show ?thesis
      unfolding action_local_def Let_def by (simp add: fold_minus_sum_list)
  next
    case one
    then show ?thesis
      unfolding action_local_def Let_def by (simp add: fold_minus_sum_list higgs_field_def)
  next
    case two
    then show ?thesis
      unfolding action_local_def Let_def by (simp add: fold_minus_sum_list higgs_field_def upt_0_2)
  qed
qed

lemma action_local_diff:
  assumes cons: "flags_consistent cfg" and dir: "dir < dim l"
  shows "action_local cfg l (set_link f i dir U) p x - action_local cfg l f p x
       = (local_su2wilson l (set_link f i dir U) p x - local_su2wilson l f p x)
         + (if x = i then
              localact_su2link cfg l (set_link f i dir U) p i dir
              - (\<Sum>b\<in>{0..<dim l} - {dir}.
                   (1 - 0.5 * su2ptrace l (set_link f i dir U) i dir b)
                   + (1 - 0.5 * su2ptrace l (set_link f i dir U) (prev_nb l i b) dir b)) * betasu2 p
              - (localact_su2link cfg l f p i dir
                 - (\<Sum>b\<in>{0..<dim l} - {dir}.
                     (1 - 0.5 * su2ptrace l f i dir b)
                     + (1 - 0.5 * su2ptrace l f (prev_nb l i b) dir b)) * betasu2 p)
            else 0)"
proof -
  let ?f' = "set_link f i dir U"
  have d1: "covariant_doublet cfg l ?f' p (su2doublet f) x - covariant_doublet cfg l f p (su2doublet f) x
        = (if x = i then hopping_doublet_forward cfg l ?f' p (su2doublet f) i dir
                        - hopping_doublet_forward cfg l f p (su2doublet f) i dir else 0)"
    by (rule covariant_doublet_diff[OF dir])
  have d2: "covariant_doublet cfg l ?f' p (doublet2 f) x - covariant_doublet cfg l f p (doublet2 f) x
        = (if x = i then hopping_doublet_forward cfg l ?f' p (doublet2 f) i dir
                        - hopping_doublet_forward cfg l f p (doublet2 f) i dir else 0)"
    by (rule covariant_doublet_diff[OF dir])
  have d3: "covariant_triplet l ?f' p x - covariant_triplet l f p x
        = (if x = i then hopping_triplet_forward l ?f' p i dir
                        - hopping_triplet_forward l f p i dir else 0)"
    by (rule covariant_triplet_diff[OF dir])
  have "action_local cfg l ?f' p x - action_local cfg l f p x
      = (local_su2wilson l ?f' p x - local_su2wilson l f p x)
        + (if HIGGS cfg then covariant_doublet cfg l ?f' p (su2doublet f) x
                             - covariant_doublet cfg l f p (su2doublet f) x else 0)
        + (if HIGGS2 cfg then covariant_doublet cfg l ?f' p (doublet2 f) x
                             - covariant_doublet cfg l f p (doublet2 f) x else 0)
        + (if TRIPLET cfg then covariant_triplet l ?f' p x - covariant_triplet l f p x else 0)"
    unfolding action_local_split[OF cons] local_u1wilson_set_link higgspotential_set_link
      other_fields_set_link
    by simp
  also have "\<dots> = (local_su2wilson l ?f' p x - local_su2wilson l f p x)
        + (if x = i then
              (if HIGGS cfg then hopping_doublet_forward cfg l ?f' p (su2doublet f) i dir
                        - hopping_doublet_forward cfg l f p (su2doublet f) i dir else 0)
            + (if HIGGS2 cfg then hopping_doublet_forward cfg l ?f' p (doublet2 f) i dir
                        - hopping_doublet_forward cfg l f p (doublet2 f) i dir else 0)
            + (if TRIPLET cfg then hopping_triplet_forward l ?f' p i dir
                        - hopping_triplet_forward l f p i dir else 0)
           else 0)"
    unfolding d1 d2 d3 by simp
  finally show ?thesis
    unfolding localact_su2link_sum other_fields_set_link by simp
qed

lemma wf_next_prev: "wf_lattice l \<Longrightarrow> i < sites l \<Longrightarrow> d < dim l \<Longrightarrow> next_nb l (prev_nb l i d) d = i"
  by (simp add: wf_lattice_def)

lemma wf_prev_next: "wf_lattice l \<Longrightarrow> i < sites l \<Longrightarrow> d < dim l \<Longrightarrow> prev_nb l (next_nb l i d) d = i"
  by (simp add: wf_lattice_def)

lemma prev_neq_self:
  assumes "wf_lattice l" "no_self_neighbour l" "i < sites l" "d < dim l"
  shows "prev_nb l i d \<noteq> i"
proof
  assume e: "prev_nb l i d = i"
  have "next_nb l (prev_nb l i d) d = i" using assms by (simp add: wf_next_prev)
  then have "next_nb l i d = i" using e by simp
  then show False using assms by (simp add: no_self_neighbour_def)
qed

text \<open>In the plane of \<open>dir\<close> and \<open>b\<close>, the link at \<open>(i, dir)\<close> lies on the plaquettes
  at \<open>i\<close> and at the backward neighbour of \<open>i\<close> in direction \<open>b\<close>, and on no other.\<close>

lemma su2ptrace_plane_unchanged:
  assumes wf: "wf_lattice l" and x: "x < sites l" and b: "b < dim l" "b \<noteq> dir"
    and ne: "x \<noteq> i" "x \<noteq> prev_nb l i b"
  shows "su2ptrace l (set_link f i dir U) x dir b = su2ptrace l f x dir b"
proof (rule su2ptrace_unchanged)
  show "\<not> (x = i \<and> dir = dir)" using ne by simp
  show "\<not> (next_nb l x dir = i \<and> b = dir)" using b by simp
  show "\<not> (x = i \<and> b = dir)" using ne by simp
  show "\<not> (next_nb l x b = i \<and> dir = dir)"
  proof
    assume "next_nb l x b = i \<and> dir = dir"
    then have "prev_nb l (next_nb l x b) b = prev_nb l i b" by simp
    then have "x = prev_nb l i b" using wf x b by (simp add: wf_prev_next)
    then show False using ne by simp
  qed
qed

lemma plane_site_sum:
  assumes wf: "wf_lattice l" and nsn: "no_self_neighbour l"
    and i: "i < sites l" and b: "b < dim l" "b \<noteq> dir"
  shows "(\<Sum>x\<in>{0..<sites l}. su2ptrace l (set_link f i dir U) x dir b - su2ptrace l f x dir b)
       = (su2ptrace l (set_link f i dir U) i dir b - su2ptrace l f i dir b)
         + (su2ptrace l (set_link f i dir U) (prev_nb l i b) dir b - su2ptrace l f (prev_nb l i b) dir b)"
proof -
  let ?q = "\<lambda>x. su2ptrace l (set_link f i dir U) x dir b - su2ptrace l f x dir b"
  have pl: "prev_nb l i b < sites l" using wf i b by (simp add: wf_lattice_def)
  have ne: "i \<noteq> prev_nb l i b" using prev_neq_self[OF wf nsn i b(1)] by simp
  have "sum ?q {0..<sites l} = sum ?q {i, prev_nb l i b}"
  proof (rule sum.mono_neutral_right)
    show "finite {0..<sites l}" by simp
    show "{i, prev_nb l i b} \<subseteq> {0..<sites l}" using i pl by simp
    show "\<forall>x\<in>{0..<sites l} - {i, prev_nb l i b}. ?q x = 0"
      using su2ptrace_plane_unchanged[OF wf _ b] by simp
  qed
  also have "\<dots> = ?q i + ?q (prev_nb l i b)" using ne by simp
  finally show ?thesis .
qed

lemma total_action_sum: "total_action cfg l f p = (\<Sum>x\<in>{0..<sites l}. action_local cfg l f p x)"
  unfolding total_action_def by (simp add: fold_plus_upt)

lemma wilson_site_sum:
  assumes wf: "wf_lattice l" and nsn: "no_self_neighbour l"
    and i: "i < sites l" and dir: "dir < dim l"
  shows "(\<Sum>x\<in>{0..<sites l}. local_su2wilson l (set_link f i dir U) p x - local_su2wilson l f p x)
       = ((\<Sum>b\<in>{0..<dim l} - {dir}.
             (1 - 0.5 * su2ptrace l (set_link f i dir U) i dir b)
             + (1 - 0.5 * su2ptrace l (set_link f i dir U) (prev_nb l i b) dir b))
          - (\<Sum>b\<in>{0..<dim l} - {dir}.
             (1 - 0.5 * su2ptrace l f i dir b)
             + (1 - 0.5 * su2ptrace l f (prev_nb l i b) dir b))) * betasu2 p"
proof -
  let ?f' = "set_link f i dir U"
  let ?B = "{0..<dim l} - {dir}"
  let ?X = "{0..<sites l}"
  let ?q = "\<lambda>x b. su2ptrace l ?f' x dir b - su2ptrace l f x dir b"
  have "(\<Sum>x\<in>?X. local_su2wilson l ?f' p x - local_su2wilson l f p x)
      = (\<Sum>x\<in>?X. betasu2 p * (\<Sum>b\<in>?B. - 0.5 * ?q x b))"
    by (simp only: local_su2wilson_diff[OF dir])
  also have "\<dots> = betasu2 p * (\<Sum>x\<in>?X. \<Sum>b\<in>?B. - 0.5 * ?q x b)"
    by (simp only: sum_distrib_left)
  also have "(\<Sum>x\<in>?X. \<Sum>b\<in>?B. - 0.5 * ?q x b) = (\<Sum>b\<in>?B. \<Sum>x\<in>?X. - 0.5 * ?q x b)"
    by (rule sum.swap)
  also have "\<dots> = (\<Sum>b\<in>?B. - 0.5 * (?q i b + ?q (prev_nb l i b) b))"
  proof (rule sum.cong[OF refl])
    fix b assume "b \<in> ?B"
    then have b: "b < dim l" "b \<noteq> dir" by auto
    have "(\<Sum>x\<in>?X. - 0.5 * ?q x b) = - 0.5 * (\<Sum>x\<in>?X. ?q x b)"
      by (simp only: sum_distrib_left)
    also have "(\<Sum>x\<in>?X. ?q x b) = ?q i b + ?q (prev_nb l i b) b"
      by (rule plane_site_sum[OF wf nsn i b])
    finally show "(\<Sum>x\<in>?X. - 0.5 * ?q x b) = - 0.5 * (?q i b + ?q (prev_nb l i b) b)" .
  qed
  also have "\<dots> = (\<Sum>b\<in>?B.
             (1 - 0.5 * su2ptrace l ?f' i dir b) + (1 - 0.5 * su2ptrace l ?f' (prev_nb l i b) dir b))
          - (\<Sum>b\<in>?B.
             (1 - 0.5 * su2ptrace l f i dir b) + (1 - 0.5 * su2ptrace l f (prev_nb l i b) dir b))"
    unfolding sum_subtractf[symmetric] by (rule sum.cong) (simp_all add: algebra_simps)
  finally show ?thesis by (simp add: mult.commute)
qed

lemma action_local_far_unchanged:
  assumes cons: "flags_consistent cfg" and wf: "wf_lattice l"
    and dir: "dir < dim l" and x: "x < sites l"
    and far: "x \<notin> insert i (prev_nb l i ` ({0..<dim l} - {dir}))"
  shows "action_local cfg l (set_link f i dir U) p x - action_local cfg l f p x = 0"
proof -
  have xi: "x \<noteq> i" using far by simp
  have "(\<Sum>b\<in>{0..<dim l} - {dir}.
           - 0.5 * (su2ptrace l (set_link f i dir U) x dir b - su2ptrace l f x dir b)) = 0"
  proof (rule sum.neutral, rule ballI)
    fix b assume bB: "b \<in> {0..<dim l} - {dir}"
    then have b: "b < dim l" "b \<noteq> dir" by auto
    have "x \<noteq> prev_nb l i b" using far bB by auto
    then show "- 0.5 * (su2ptrace l (set_link f i dir U) x dir b - su2ptrace l f x dir b) = 0"
      using su2ptrace_plane_unchanged[OF wf x b xi] by simp
  qed
  then show ?thesis
    unfolding action_local_diff[OF cons dir] local_su2wilson_diff[OF dir] using xi by simp
qed

lemma no_self_neighbour_torus2: "no_self_neighbour torus2"
  by (auto simp: no_self_neighbour_def torus2_def torus2_nb_def less_2_cases less_4_cases)

lemma flags_consistent_pure_gauge: "flags_consistent pure_gauge"
  by (simp add: flags_consistent_def pure_gauge_def)

lemma su2trace4_first:
  "su2trace4 [a, b, c, d] [1, 0, 0, 0] [1, 0, 0, 0] [1, 0, 0, 0] = 2 * a"
  by (simp add: su2trace4_def)

lemma su2trace4_third:
  "su2trace4 [1, 0, 0, 0] [1, 0, 0, 0] [a, b, c, d] [1, 0, 0, 0] = 2 * a"
  by (simp add: su2trace4_def)

lemma torus2_nb_values:
  "torus2_nb 0 0 = 1" "torus2_nb 0 (Suc 0) = 2" "torus2_nb (Suc 0) 0 = 0" "torus2_nb (Suc 0) (Suc 0) = 3"
  "torus2_nb 2 0 = 3" "torus2_nb 2 (Suc 0) = 0" "torus2_nb 3 0 = 2" "torus2_nb 3 (Suc 0) = 1"
  by (simp_all add: torus2_nb_def)


lemma torus2_action_local_before:
  "x < 4 \<Longrightarrow> action_local pure_gauge torus2 (uniform_fields [1, 0, 0, 0] [0, 0, 0]) (torus2_params 1) x = 0"
  by (simp add: action_local_def local_su2wilson_def su2ptrace_def higgspotential_def
      pure_gauge_def torus2_def torus2_params_def uniform_fields_def su2trace4_id Let_def upt_rec)

lemma torus2_action_local_after:
  "action_local pure_gauge torus2 (set_link (uniform_fields [1, 0, 0, 0] [0, 0, 0]) 0 0 [0, 1, 0, 0])
     (torus2_params 1) x = (if x = 0 \<or> x = 2 then 1 else 0)"
  if "x < 4" for x
  using that
  by (auto simp: less_4_cases action_local_def local_su2wilson_def su2ptrace_def higgspotential_def
      pure_gauge_def torus2_def torus2_nb_values torus2_params_def uniform_fields_def set_link_def
      su2trace4_id su2trace4_first su2trace4_third Let_def upt_rec)

lemma torus2_total_action_diff:
  "total_action pure_gauge torus2 (set_link (uniform_fields [1, 0, 0, 0] [0, 0, 0]) 0 0 [0, 1, 0, 0])
     (torus2_params 1)
   - total_action pure_gauge torus2 (uniform_fields [1, 0, 0, 0] [0, 0, 0]) (torus2_params 1) = 2"
proof -
  have s: "sites torus2 = 4" by (simp add: torus2_def)
  show ?thesis
    unfolding total_action_def s
    by (simp add: upt_rec torus2_action_local_before torus2_action_local_after)
qed

text \<open>
  C1: for two configurations that differ only in the SU(2) link at \<open>(i, dir)\<close>, the
  difference of \<open>localact_su2link(l, f, p, i, dir)\<close> is the difference of the total
  action, the sum of \<open>action_local\<close> over all sites, and this difference is the re-sum
  of \<open>action_local\<close> over site \<open>i\<close> and its backward neighbours \<open>prev[i][d]\<close> in the
  directions \<open>d\<close> other than \<open>dir\<close>.  The lattice is one whose neighbour tables are
  inverse to each other and have no fixed point.
\<close>

theorem link_update_locality:
  assumes cons: "flags_consistent cfg" and wf: "wf_lattice l" and nsn: "no_self_neighbour l"
    and i: "i < sites l" and dir: "dir < dim l"
  shows "localact_su2link cfg l (set_link f i dir U) p i dir - localact_su2link cfg l f p i dir
         = total_action cfg l (set_link f i dir U) p - total_action cfg l f p
       \<and> total_action cfg l (set_link f i dir U) p - total_action cfg l f p
         = (\<Sum>x\<in>insert i (prev_nb l i ` ({0..<dim l} - {dir})).
              action_local cfg l (set_link f i dir U) p x - action_local cfg l f p x)"
proof
  let ?f' = "set_link f i dir U"
  let ?X = "{0..<sites l}"
  let ?D = "\<lambda>x. action_local cfg l ?f' p x - action_local cfg l f p x"
  have tot: "total_action cfg l ?f' p - total_action cfg l f p = sum ?D ?X"
    unfolding total_action_sum by (simp add: sum_subtractf)
  have "sum ?D ?X
      = (\<Sum>x\<in>?X. local_su2wilson l ?f' p x - local_su2wilson l f p x)
        + (\<Sum>x\<in>?X. if x = i then
              localact_su2link cfg l ?f' p i dir
              - (\<Sum>b\<in>{0..<dim l} - {dir}.
                   (1 - 0.5 * su2ptrace l ?f' i dir b)
                   + (1 - 0.5 * su2ptrace l ?f' (prev_nb l i b) dir b)) * betasu2 p
              - (localact_su2link cfg l f p i dir
                 - (\<Sum>b\<in>{0..<dim l} - {dir}.
                     (1 - 0.5 * su2ptrace l f i dir b)
                     + (1 - 0.5 * su2ptrace l f (prev_nb l i b) dir b)) * betasu2 p)
            else 0)"
    unfolding action_local_diff[OF cons dir] by (rule sum.distrib)
  also have "\<dots> = localact_su2link cfg l ?f' p i dir - localact_su2link cfg l f p i dir"
    unfolding wilson_site_sum[OF wf nsn i dir] using i by (simp add: sum.delta algebra_simps)
  finally show "localact_su2link cfg l ?f' p i dir - localact_su2link cfg l f p i dir
         = total_action cfg l ?f' p - total_action cfg l f p"
    using tot by simp
  have "sum ?D ?X = sum ?D (insert i (prev_nb l i ` ({0..<dim l} - {dir})))"
  proof (rule sum.mono_neutral_right)
    show "finite ?X" by simp
    show "insert i (prev_nb l i ` ({0..<dim l} - {dir})) \<subseteq> ?X"
      using i wf by (auto simp: wf_lattice_def)
    show "\<forall>x\<in>?X - insert i (prev_nb l i ` ({0..<dim l} - {dir})). ?D x = 0"
      using action_local_far_unchanged[OF cons wf dir] by simp
  qed
  with tot show "total_action cfg l ?f' p - total_action cfg l f p
         = sum ?D (insert i (prev_nb l i ` ({0..<dim l} - {dir})))"
    by simp
qed

theorem link_update_locality_witness:
  "localact_su2link pure_gauge torus2
     (set_link (uniform_fields [1, 0, 0, 0] [0, 0, 0]) 0 0 [0, 1, 0, 0]) (torus2_params 1) 0 0
   - localact_su2link pure_gauge torus2 (uniform_fields [1, 0, 0, 0] [0, 0, 0]) (torus2_params 1) 0 0
   = 2"
proof -
  have i: "0 < sites torus2" and d: "0 < dim torus2" by (simp_all add: torus2_def)
  from link_update_locality[OF flags_consistent_pure_gauge wf_torus2 no_self_neighbour_torus2 i d,
      of "uniform_fields [1, 0, 0, 0] [0, 0, 0]" "[0, 1, 0, 0]" "torus2_params 1"]
  show ?thesis by (simp add: torus2_total_action_diff)
qed

text \<open>
  The re-sum over the two ends of the link, site \<open>i\<close> and \<open>next[i][dir]\<close>, is not the
  difference of the total action: on the \<open>2 \<times> 2\<close> torus with identity links, \<open>betasu2 = 1\<close>
  and the link at site 0 in direction 0 set to \<open>(0, 1, 0, 0)\<close>, the total action grows
  by 2 and the sum of \<open>action_local\<close> over the sites 0 and 1 by 1.  The plaquette based
  at site 2, the backward neighbour of 0 in direction 1, holds the link as well.
\<close>

theorem endpoint_resum_counterexample:
  "total_action pure_gauge torus2
     (set_link (uniform_fields [1, 0, 0, 0] [0, 0, 0]) 0 0 [0, 1, 0, 0]) (torus2_params 1)
   - total_action pure_gauge torus2 (uniform_fields [1, 0, 0, 0] [0, 0, 0]) (torus2_params 1) = 2
   \<and> (action_local pure_gauge torus2
        (set_link (uniform_fields [1, 0, 0, 0] [0, 0, 0]) 0 0 [0, 1, 0, 0]) (torus2_params 1) 0
      + action_local pure_gauge torus2
        (set_link (uniform_fields [1, 0, 0, 0] [0, 0, 0]) 0 0 [0, 1, 0, 0]) (torus2_params 1)
        (next_nb torus2 0 0))
     - (action_local pure_gauge torus2 (uniform_fields [1, 0, 0, 0] [0, 0, 0]) (torus2_params 1) 0
      + action_local pure_gauge torus2 (uniform_fields [1, 0, 0, 0] [0, 0, 0]) (torus2_params 1)
        (next_nb torus2 0 0)) = 1"
proof -
  have n: "next_nb torus2 0 0 = 1" by (simp add: torus2_def torus2_nb_def)
  show ?thesis
    unfolding n by (simp add: torus2_total_action_diff torus2_action_local_before torus2_action_local_after)
qed

end
